theory Spec2Isabelle
  imports Complex_Main
begin

section \<open>Safe robot movement test: a model of \<open>examples/safe_robot_test.py\<close>\<close>

text \<open>
  The script drives a robot controller through an RTDE client object \<open>con\<close>. The client
  library, the clock, \<open>time.sleep\<close> and the console are not part of the script: they are
  modelled as an environment that answers every call. The safety validator takes the
  arithmetic of Python floats as a parameter; everywhere else a float is modelled as a
  \<^typ>\<open>real\<close>, so that rounding, infinities and NaN are outside that part of the model.
\<close>

subsection \<open>Configuration constants (lines 34-44)\<close>

definition MAX_JOINT_MOVEMENT :: real where
  "MAX_JOINT_MOVEMENT = 5 / 100"

definition MOVEMENT_TIMEOUT :: real where
  "MOVEMENT_TIMEOUT = 10"

definition SMALL_MOVEMENT_OFFSET :: real where
  "SMALL_MOVEMENT_OFFSET = 3 / 100"

subsection \<open>\<open>validate_joint_position\<close> (lines 50-70)\<close>

text \<open>
  The function computes with Python floats: the subtraction and \<open>abs\<close> of line 66, the
  comparison \<open>>\<close> of line 67 and the format \<open>:.4f\<close> of line 68. That arithmetic is not
  part of the script, so the model takes it as a parameter: \<open>'a\<close> is the type of the
  numbers and \<open>'s\<close> the type of what \<open>:.4f\<close> prints. Nothing is assumed about the
  operations, so rounding and NaN are whatever the parameter makes them.
\<close>

record ('a, 's) number_ops =
  fsub :: "'a \<Rightarrow> 'a \<Rightarrow> 'a"
  fabs :: "'a \<Rightarrow> 'a"
  fgt :: "'a \<Rightarrow> 'a \<Rightarrow> bool"
  fmt4 :: "'a \<Rightarrow> 's"

text \<open>
  The function returns a pair of a flag and a message. The three messages of the source
  are the three constructors; the message of line 68 carries the joint index and the
  delta and the bound as \<open>:.4f\<close> prints them.
\<close>

datatype 's message =
    Invalid_position_dimensions
  | Joint_movement_too_large nat 's 's
  | Position_is_safe

text \<open>The \<open>for\<close> loop of lines 65-68 over \<open>enumerate(zip(current_pos, target_pos))\<close>.\<close>

fun check_joints ::
  "('a, 's) number_ops \<Rightarrow> nat \<Rightarrow> ('a \<times> 'a) list \<Rightarrow> 'a \<Rightarrow> bool \<times> 's message" where
  "check_joints ops i [] max_delta = (True, Position_is_safe)"
| "check_joints ops i ((cur, targ) # rest) max_delta =
     (let delta = fabs ops (fsub ops targ cur) in
      if fgt ops delta max_delta
      then (False, Joint_movement_too_large i (fmt4 ops delta) (fmt4 ops max_delta))
      else check_joints ops (Suc i) rest max_delta)"

definition validate_joint_position ::
  "('a, 's) number_ops \<Rightarrow> 'a list \<Rightarrow> 'a list \<Rightarrow> 'a \<Rightarrow> bool \<times> 's message" where
  "validate_joint_position ops current_pos target_pos max_delta =
     (if length current_pos \<noteq> 6 \<or> length target_pos \<noteq> 6
      then (False, Invalid_position_dimensions)
      else check_joints ops 0 (zip current_pos target_pos) max_delta)"

text \<open>The joint index and the delta that a message reports, when it reports them.\<close>

fun reported_joint :: "'s message \<Rightarrow> (nat \<times> 's) option" where
  "reported_joint (Joint_movement_too_large i delta max_delta) = Some (i, delta)"
| "reported_joint Invalid_position_dimensions = None"
| "reported_joint Position_is_safe = None"

text \<open>
  Exact arithmetic on \<^typ>\<open>real\<close>, the arithmetic in which the rest of the script is
  modelled: numbers without rounding, infinities or NaN. \<open>format_4f x\<close> is the number
  that \<open>:.4f\<close> prints for \<open>x\<close>: the nearest multiple of \<open>0.0001\<close>, a tie going to the
  even one.
\<close>

definition round_half_even :: "real \<Rightarrow> int" where
  "round_half_even y =
     (let f = \<lfloor>y\<rfloor> in
      if y - of_int f < 1 / 2 then f
      else if 1 / 2 < y - of_int f then f + 1
      else if even f then f else f + 1)"

definition format_4f :: "real \<Rightarrow> real" where
  "format_4f x = of_int (round_half_even (x * 10000)) / 10000"

definition exact_ops :: "(real, real) number_ops" where
  "exact_ops = \<lparr>fsub = (\<lambda>a b. a - b), fabs = abs, fgt = (\<lambda>a b. b < a), fmt4 = format_4f\<rparr>"

subsection \<open>Exceptions, events and the environment\<close>

text \<open>
  The exceptions that matter to the handlers of the script: \<open>KeyboardInterrupt\<close> (Ctrl+C)
  and \<open>SystemExit\<close> are not subclasses of \<open>Exception\<close>, every other constructor is.
\<close>

datatype exn =
    KeyboardInterrupt
  | SystemExit
  | ValueError string
  | AttributeError
  | IndexError
  | OtherError string

fun is_Exception :: "exn \<Rightarrow> bool" where
  "is_Exception KeyboardInterrupt = False"
| "is_Exception SystemExit = False"
| "is_Exception (ValueError msg) = True"
| "is_Exception AttributeError = True"
| "is_Exception IndexError = True"
| "is_Exception (OtherError msg) = True"

text \<open>
  The telemetry object returned by \<open>con.receive()\<close>; the script reads its fields
  \<open>actual_q\<close> and \<open>actual_qd\<close> only.
\<close>

record robot_state =
  actual_q :: "real list"
  actual_qd :: "real list"

text \<open>
  One event per call that leaves the script, in the order of the calls. \<open>Prepare\<close> stands
  for lines 155-167 (writing the recipe file, parsing it, constructing the client),
  \<open>Send\<close> carries the six register values of the setpoint object, \<open>Sleep\<close> its duration.
\<close>

datatype event =
    is_Input: Input
  | is_Prepare: Prepare
  | is_Connect: Connect
  | is_GetControllerVersion: GetControllerVersion
  | is_SendOutputSetup: SendOutputSetup
  | is_SendInputSetup: SendInputSetup
  | is_SendStart: SendStart
  | is_Receive: Receive
  | is_Send: Send "real list"
  | is_SendPause: SendPause
  | is_Disconnect: Disconnect
  | is_Sleep: Sleep real
  | is_Time: Time

type_synonym trace = "event list"

text \<open>
  The environment answers the \<open>k\<close>-th call of an operation (counted from 0) with a value
  or an exception. \<open>send_input_setup_r\<close> answers \<open>True\<close> for a setpoint object and
  \<open>False\<close> for \<open>None\<close>; \<open>time_r\<close> is the \<open>k\<close>-th reading of \<open>time.time()\<close>.
  Operations that the script calls at most once have a single answer.
\<close>

record env =
  input_r :: "exn + string"
  prepare_r :: "exn option"
  connect_r :: "nat \<Rightarrow> exn option"
  get_controller_version_r :: "nat \<Rightarrow> exn option"
  send_output_setup_r :: "nat \<Rightarrow> exn option"
  send_input_setup_r :: "nat \<Rightarrow> exn + bool"
  send_start_r :: "exn + bool"
  receive_r :: "nat \<Rightarrow> exn + robot_state option"
  send_r :: "nat \<Rightarrow> exn option"
  send_pause_r :: "exn option"
  disconnect_r :: "nat \<Rightarrow> exn option"
  sleep_r :: "nat \<Rightarrow> exn option"
  time_r :: "nat \<Rightarrow> real"

text \<open>A call appends its event to the trace and returns the answer or raises.\<close>

type_synonym 'a act = "trace \<Rightarrow> (exn + 'a) \<times> trace"

definition ncalls :: "(event \<Rightarrow> bool) \<Rightarrow> trace \<Rightarrow> nat" where
  "ncalls P tr = length (filter P tr)"

definition raising :: "exn option \<Rightarrow> exn + unit" where
  "raising r = (case r of None \<Rightarrow> Inr () | Some e \<Rightarrow> Inl e)"

definition input :: "env \<Rightarrow> string act" where
  "input E tr = (input_r E, tr @ [Input])"

definition prepare :: "env \<Rightarrow> unit act" where
  "prepare E tr = (raising (prepare_r E), tr @ [Prepare])"

definition connect :: "env \<Rightarrow> unit act" where
  "connect E tr = (raising (connect_r E (ncalls is_Connect tr)), tr @ [Connect])"

definition get_controller_version :: "env \<Rightarrow> unit act" where
  "get_controller_version E tr =
     (raising (get_controller_version_r E (ncalls is_GetControllerVersion tr)),
      tr @ [GetControllerVersion])"

definition send_output_setup :: "env \<Rightarrow> unit act" where
  "send_output_setup E tr =
     (raising (send_output_setup_r E (ncalls is_SendOutputSetup tr)), tr @ [SendOutputSetup])"

definition send_input_setup :: "env \<Rightarrow> bool act" where
  "send_input_setup E tr =
     (send_input_setup_r E (ncalls is_SendInputSetup tr), tr @ [SendInputSetup])"

definition send_start :: "env \<Rightarrow> bool act" where
  "send_start E tr = (send_start_r E, tr @ [SendStart])"

definition receive :: "env \<Rightarrow> robot_state option act" where
  "receive E tr = (receive_r E (ncalls is_Receive tr), tr @ [Receive])"

definition send :: "env \<Rightarrow> real list \<Rightarrow> unit act" where
  "send E regs tr = (raising (send_r E (ncalls is_Send tr)), tr @ [Send regs])"

definition send_pause :: "env \<Rightarrow> unit act" where
  "send_pause E tr = (raising (send_pause_r E), tr @ [SendPause])"

definition disconnect :: "env \<Rightarrow> unit act" where
  "disconnect E tr = (raising (disconnect_r E (ncalls is_Disconnect tr)), tr @ [Disconnect])"

definition sleep :: "env \<Rightarrow> real \<Rightarrow> unit act" where
  "sleep E secs tr = (raising (sleep_r E (ncalls is_Sleep tr)), tr @ [Sleep secs])"

definition time :: "env \<Rightarrow> trace \<Rightarrow> real \<times> trace" where
  "time E tr = (time_r E (ncalls is_Time tr), tr @ [Time])"

subsection \<open>\<open>wait_for_move_completion\<close> (lines 81-108)\<close>

text \<open>
  \<open>max([abs(v) for v in state.actual_qd])\<close>: \<open>max\<close> of an empty list raises \<open>ValueError\<close>.
\<close>

definition max_abs_velocity :: "robot_state \<Rightarrow> exn + real" where
  "max_abs_velocity state =
     (case map abs (actual_qd state) of
        [] \<Rightarrow> Inl (ValueError ''max() arg is an empty sequence'')
      | v # vs \<Rightarrow> Inr (fold max vs v))"

text \<open>
  The \<open>while\<close> loop of lines 95-105. It ends only when the clock or the telemetry ends it,
  so it is a partial function: \<open>None\<close> is a loop that never returns. \<open>Inr True\<close> and
  \<open>Inr False\<close> are the two return values of the source, \<open>Inl\<close> an exception that leaves
  the function.
\<close>

partial_function (option) wait_loop ::
  "env \<Rightarrow> real \<Rightarrow> real \<Rightarrow> trace \<Rightarrow> ((exn + bool) \<times> trace) option" where
  "wait_loop E start_time timeout tr =
     (case time E tr of (now, tr1) \<Rightarrow>
        if now - start_time < timeout then
          (case receive E tr1 of
             (Inl e, tr2) \<Rightarrow> Some (Inl e, tr2)
           | (Inr None, tr2) \<Rightarrow> Some (Inr False, tr2)
           | (Inr (Some state), tr2) \<Rightarrow>
               (case max_abs_velocity state of
                  Inl e \<Rightarrow> Some (Inl e, tr2)
                | Inr max_velocity \<Rightarrow>
                    if max_velocity < 1 / 1000 then Some (Inr True, tr2)
                    else (case sleep E (1 / 100) tr2 of
                            (Inl e, tr3) \<Rightarrow> Some (Inl e, tr3)
                          | (Inr u, tr3) \<Rightarrow> wait_loop E start_time timeout tr3)))
        else Some (Inr False, tr1))"

declare wait_loop.simps [code]

definition wait_for_move_completion ::
  "env \<Rightarrow> real \<Rightarrow> trace \<Rightarrow> ((exn + bool) \<times> trace) option" where
  "wait_for_move_completion E timeout tr =
     (case time E tr of (start_time, tr0) \<Rightarrow> wait_loop E start_time timeout tr0)"

subsection \<open>Strings\<close>

text \<open>\<open>str.upper()\<close> on ASCII letters, and the substring test \<open>sub in s\<close>.\<close>

definition upper_char :: "char \<Rightarrow> char" where
  "upper_char c =
     (let n = (of_char c :: nat) in if 97 \<le> n \<and> n \<le> 122 then char_of (n - 32) else c)"

definition upper :: "string \<Rightarrow> string" where
  "upper s = map upper_char s"

fun starts_with :: "string \<Rightarrow> string \<Rightarrow> bool" where
  "starts_with [] s = True"
| "starts_with (p # ps) [] = False"
| "starts_with (p # ps) (c # cs) = (p = c \<and> starts_with ps cs)"

fun str_contains :: "string \<Rightarrow> string \<Rightarrow> bool" where
  "str_contains sub [] = (sub = [])"
| "str_contains sub (c # cs) = (starts_with sub (c # cs) \<or> str_contains sub cs)"

subsection \<open>\<open>run_safe_robot_test\<close> (lines 115-328)\<close>

text \<open>
  The function returns \<open>None\<close> on every path; what tells the paths apart is the last
  message printed. An outcome names that message: \<open>Cancelled\<close> (line 132),
  \<open>ConfigureFailed\<close> (202), \<open>SetupFailed\<close> (215), \<open>StartFailed\<close> (220), \<open>NoState\<close> (231),
  \<open>Validation1Failed\<close> (252), \<open>Validation2Failed\<close> (258), \<open>Movement1Timeout\<close> (283),
  \<open>Movement2Timeout\<close> (302), \<open>Completed\<close> (307), \<open>EmergencyStop\<close> (312), \<open>Error\<close> (316).
\<close>

datatype outcome =
    Cancelled
  | ConfigureFailed
  | SetupFailed
  | StartFailed
  | NoState
  | Validation1Failed "real message"
  | Validation2Failed "real message"
  | Movement1Timeout
  | Movement2Timeout
  | Completed
  | EmergencyStop
  | Error exn

text \<open>Line 189-190: a \<open>ValueError\<close> whose text contains \<open>already in use\<close>.\<close>

fun is_register_conflict :: "exn \<Rightarrow> bool" where
  "is_register_conflict (ValueError msg) = str_contains ''already in use'' msg"
| "is_register_conflict KeyboardInterrupt = False"
| "is_register_conflict SystemExit = False"
| "is_register_conflict AttributeError = False"
| "is_register_conflict IndexError = False"
| "is_register_conflict (OtherError msg) = False"

text \<open>
  The retry loop of lines 182-212. The result is an exception (\<open>Inl\<close>), a \<open>return\<close> out of
  the whole function (\<open>Inr (Inl outcome)\<close>), or the value of \<open>setp\<close> when the loop is
  left (\<open>Inr (Inr b)\<close>, with \<open>b = False\<close> for \<open>None\<close>).
\<close>

function configure_loop ::
  "env \<Rightarrow> nat \<Rightarrow> nat \<Rightarrow> trace \<Rightarrow> (exn + outcome + bool) \<times> trace" where
  "configure_loop E max_retries retry_count tr =
     (if retry_count < max_retries then
        (case (case send_output_setup E tr of
                 (Inl e, tr1) \<Rightarrow> (Inl e, tr1)
               | (Inr u, tr1) \<Rightarrow> send_input_setup E tr1) of
           (Inr setp, tr2) \<Rightarrow> (Inr (Inr setp), tr2)
         | (Inl e, tr2) \<Rightarrow>
             if is_register_conflict e then
               (case disconnect E tr2 of
                  (Inl e', tr3) \<Rightarrow> (Inl e', tr3)
                | (Inr u, tr3) \<Rightarrow>
               (case sleep E 2 tr3 of
                  (Inl e', tr4) \<Rightarrow> (Inl e', tr4)
                | (Inr u, tr4) \<Rightarrow>
               if Suc retry_count < max_retries then
                 (case connect E tr4 of
                    (Inl e', tr5) \<Rightarrow> (Inl e', tr5)
                  | (Inr u, tr5) \<Rightarrow>
                 (case get_controller_version E tr5 of
                    (Inl e', tr6) \<Rightarrow> (Inl e', tr6)
                  | (Inr u, tr6) \<Rightarrow> configure_loop E max_retries (Suc retry_count) tr6))
               else (Inr (Inl ConfigureFailed), tr4)))
             else (Inl e, tr2))
      else (Inr (Inr False), tr))"
  by pat_completeness auto
termination
  by (relation "measure (\<lambda>(E, max_retries, retry_count, tr). max_retries - retry_count)") auto

declare configure_loop.simps [simp del]

text \<open>Sequencing of two steps: an exception of the first skips the second.\<close>

definition seq :: "'a act \<Rightarrow> ('a \<Rightarrow> 'b act) \<Rightarrow> 'b act" where
  "seq m f tr = (case m tr of (Inl e, tr') \<Rightarrow> (Inl e, tr') | (Inr a, tr') \<Rightarrow> f a tr')"

definition ret :: "'a \<Rightarrow> 'a act" where
  "ret a tr = (Inr a, tr)"

text \<open>
  Lines 170-235: connect, configure, start the synchronisation and read the current
  position. \<open>Inl outcome\<close> is a \<open>return\<close> of the function, \<open>Inr\<close> the position read.
\<close>

definition session_setup :: "env \<Rightarrow> (outcome + real list) act" where
  "session_setup E =
     seq (connect E) (\<lambda>u.
     seq (get_controller_version E) (\<lambda>version.
     seq (configure_loop E 3 0) (\<lambda>r.
       case r of
         Inl out \<Rightarrow> ret (Inl out)
       | Inr setp \<Rightarrow>
           if \<not> setp then ret (Inl SetupFailed)
           else seq (send_start E) (\<lambda>started.
             if \<not> started then ret (Inl StartFailed)
             else seq (receive E) (\<lambda>state.
               case state of
                 None \<Rightarrow> ret (Inl NoState)
               | Some st \<Rightarrow> ret (Inr (actual_q st)))))))"

text \<open>Lines 243-244: \<open>target_pos_1[5] += SMALL_MOVEMENT_OFFSET\<close> on a copy of the position.\<close>

definition target_pos_1 :: "real list \<Rightarrow> exn + real list" where
  "target_pos_1 current_position =
     (if length current_position \<le> 5 then Inl IndexError
      else Inr (current_position[5 := current_position ! 5 + SMALL_MOVEMENT_OFFSET]))"

text \<open>
  Lines 273-275 and 292-294: the six registers of \<open>setp\<close> are set from the target, then
  \<open>con.send(setp)\<close>.
\<close>

definition send_target :: "env \<Rightarrow> real list \<Rightarrow> unit act" where
  "send_target E target_pos tr =
     (if length target_pos < 6 then (Inl IndexError, tr) else send E (take 6 target_pos) tr)"

text \<open>
  Lines 273-284 and 292-303, the same code twice: send the target, wait, and after a
  completed wait receive once more and read \<open>state.actual_q\<close>, which raises
  \<open>AttributeError\<close> when \<open>state\<close> is \<open>None\<close>. \<open>Inr False\<close> is the \<open>else\<close> branch.
\<close>

definition movement :: "env \<Rightarrow> real list \<Rightarrow> trace \<Rightarrow> ((exn + bool) \<times> trace) option" where
  "movement E target_pos tr =
     (case send_target E target_pos tr of
        (Inl e, tr1) \<Rightarrow> Some (Inl e, tr1)
      | (Inr u, tr1) \<Rightarrow>
          (case wait_for_move_completion E MOVEMENT_TIMEOUT tr1 of
             None \<Rightarrow> None
           | Some (Inl e, tr2) \<Rightarrow> Some (Inl e, tr2)
           | Some (Inr False, tr2) \<Rightarrow> Some (Inr False, tr2)
           | Some (Inr True, tr2) \<Rightarrow>
               (case receive E tr2 of
                  (Inl e, tr3) \<Rightarrow> Some (Inl e, tr3)
                | (Inr None, tr3) \<Rightarrow> Some (Inl AttributeError, tr3)
                | (Inr (Some state), tr3) \<Rightarrow> Some (Inr True, tr3))))"

text \<open>Lines 237-309: the two targets, their validation, and the two movements.\<close>

definition test_movements ::
  "env \<Rightarrow> real list \<Rightarrow> trace \<Rightarrow> ((exn + outcome) \<times> trace) option" where
  "test_movements E current_position tr =
     (case target_pos_1 current_position of
        Inl e \<Rightarrow> Some (Inl e, tr)
      | Inr tp1 \<Rightarrow>
          let tp2 = current_position in
          (case validate_joint_position exact_ops current_position tp1 MAX_JOINT_MOVEMENT of
             (is_safe1, msg1) \<Rightarrow>
          if \<not> is_safe1 then Some (Inr (Validation1Failed msg1), tr)
          else
          (case validate_joint_position exact_ops tp1 tp2 MAX_JOINT_MOVEMENT of
             (is_safe2, msg2) \<Rightarrow>
          if \<not> is_safe2 then Some (Inr (Validation2Failed msg2), tr)
          else
          (case sleep E 2 tr of
             (Inl e, tr1) \<Rightarrow> Some (Inl e, tr1)
           | (Inr u, tr1) \<Rightarrow>
          (case movement E tp1 tr1 of
             None \<Rightarrow> None
           | Some (Inl e, tr2) \<Rightarrow> Some (Inl e, tr2)
           | Some (Inr False, tr2) \<Rightarrow> Some (Inr Movement1Timeout, tr2)
           | Some (Inr True, tr2) \<Rightarrow>
          (case sleep E 1 tr2 of
             (Inl e, tr3) \<Rightarrow> Some (Inl e, tr3)
           | (Inr u, tr3) \<Rightarrow>
          (case movement E tp2 tr3 of
             None \<Rightarrow> None
           | Some (Inl e, tr4) \<Rightarrow> Some (Inl e, tr4)
           | Some (Inr False, tr4) \<Rightarrow> Some (Inr Movement2Timeout, tr4)
           | Some (Inr True, tr4) \<Rightarrow> Some (Inr Completed, tr4))))))))"

text \<open>The body of the \<open>try\<close> statement, lines 170-309.\<close>

definition try_body :: "env \<Rightarrow> trace \<Rightarrow> ((exn + outcome) \<times> trace) option" where
  "try_body E tr =
     (case session_setup E tr of
        (Inl e, tr1) \<Rightarrow> Some (Inl e, tr1)
      | (Inr (Inl out), tr1) \<Rightarrow> Some (Inr out, tr1)
      | (Inr (Inr current_position), tr1) \<Rightarrow> test_movements E current_position tr1)"

text \<open>
  The \<open>except\<close> clauses of lines 311-318: \<open>KeyboardInterrupt\<close> and every \<open>Exception\<close> end
  the function normally; any other exception goes on after the \<open>finally\<close> clause.
\<close>

definition handlers :: "exn + outcome \<Rightarrow> exn + outcome" where
  "handlers r =
     (case r of
        Inr out \<Rightarrow> Inr out
      | Inl e \<Rightarrow>
          if e = KeyboardInterrupt then Inr EmergencyStop
          else if is_Exception e then Inr (Error e)
          else Inl e)"

text \<open>
  The \<open>finally\<close> clause of lines 320-328: pause, then disconnect, inside a \<open>try\<close> whose bare
  \<open>except\<close> swallows whatever either call raises.
\<close>

definition cleanup :: "env \<Rightarrow> trace \<Rightarrow> trace" where
  "cleanup E tr =
     (case send_pause E tr of
        (Inl e, tr1) \<Rightarrow> tr1
      | (Inr u, tr1) \<Rightarrow> snd (disconnect E tr1))"

text \<open>
  The whole function. \<open>Inl e\<close> is an exception that leaves \<open>run_safe_robot_test\<close>,
  \<open>Inr outcome\<close> a normal return, \<open>None\<close> a run that never returns.
\<close>

definition run_safe_robot_test :: "env \<Rightarrow> ((exn + outcome) \<times> trace) option" where
  "run_safe_robot_test E =
     (case input E [] of
        (Inl e, tr) \<Rightarrow> Some (Inl e, tr)
      | (Inr response, tr) \<Rightarrow>
          if upper response \<noteq> ''YES'' then Some (Inr Cancelled, tr)
          else
            (case prepare E tr of
               (Inl e, tr1) \<Rightarrow> Some (Inl e, tr1)
             | (Inr u, tr1) \<Rightarrow>
                 (case try_body E tr1 of
                    None \<Rightarrow> None
                  | Some (r, tr2) \<Rightarrow> Some (handlers r, cleanup E tr2))))"

subsection \<open>Numbers with NaN\<close>



subsection \<open>Telemetry scenarios\<close>

text \<open>
  The maximum absolute joint velocity of a sample, in the words of the specification
  and not as line 101 computes it.
\<close>

definition spec_max_abs_velocity :: "robot_state \<Rightarrow> real" where
  "spec_max_abs_velocity st = Max (abs ` set (actual_qd st))"

text \<open>
  What a call of \<open>con.receive()\<close> answered: a sample whose maximum absolute joint
  velocity is not below the stillness threshold \<open>0.001\<close>, or a sample where it is.
\<close>

definition moving_sample :: "exn + robot_state option \<Rightarrow> bool" where
  "moving_sample r =
     (case r of
        Inr (Some st) \<Rightarrow> actual_qd st \<noteq> [] \<and> \<not> spec_max_abs_velocity st < 1 / 1000
      | Inr None \<Rightarrow> False
      | Inl e \<Rightarrow> False)"

definition still_sample :: "exn + robot_state option \<Rightarrow> bool" where
  "still_sample r =
     (case r of
        Inr (Some st) \<Rightarrow> actual_qd st \<noteq> [] \<and> spec_max_abs_velocity st < 1 / 1000
      | Inr None \<Rightarrow> False
      | Inl e \<Rightarrow> False)"

text \<open>The events of \<open>n\<close> full rounds of the polling loop.\<close>

definition poll_events :: "nat \<Rightarrow> trace" where
  "poll_events n = concat (replicate n [Time, Receive, Sleep (1 / 100)])"

text \<open>
  \<open>keeps_moving E timeout tr n\<close>: when \<open>wait_for_move_completion\<close> is called after the
  trace \<open>tr\<close>, each of its first \<open>n\<close> rounds finds the clock within the timeout, polls a
  moving sample, and sleeps without being interrupted.
\<close>

definition keeps_moving :: "env \<Rightarrow> real \<Rightarrow> trace \<Rightarrow> nat \<Rightarrow> bool" where
  "keeps_moving E timeout tr n \<longleftrightarrow>
     (\<forall>k<n. time_r E (Suc (ncalls is_Time tr + k)) - time_r E (ncalls is_Time tr) < timeout \<and>
             moving_sample (receive_r E (ncalls is_Receive tr + k)) \<and>
             sleep_r E (ncalls is_Sleep tr + k) = None)"

text \<open>Every \<open>con.receive()\<close> recorded in a trace yielded a sample.\<close>

definition all_received :: "env \<Rightarrow> trace \<Rightarrow> bool" where
  "all_received E tr \<longleftrightarrow>
     (\<forall>k<ncalls is_Receive tr.
        case receive_r E k of Inr (Some st) \<Rightarrow> True | Inr None \<Rightarrow> False | Inl e \<Rightarrow> False)"

text \<open>An event that is neither a \<open>con.send\<close> nor a \<open>con.send_pause\<close>.\<close>

definition quiet :: "event \<Rightarrow> bool" where
  "quiet e \<longleftrightarrow> \<not> is_Send e \<and> \<not> is_SendPause e"


text \<open>The operator answers the prompt of line 130 with \<open>yes\<close> in any capitalisation.\<close>

definition confirmed :: "env \<Rightarrow> bool" where
  "confirmed E =
     (case input_r E of Inr response \<Rightarrow> upper response = ''YES'' | Inl e \<Rightarrow> False)"

subsection \<open>Configuration scenarios\<close>

text \<open>
  The exception, if any, with which the configuration attempt that starts after the
  trace \<open>tr\<close> is rejected (lines 184-185), and the events of that attempt.
\<close>

definition rejected :: "env \<Rightarrow> trace \<Rightarrow> exn option" where
  "rejected E tr =
     (case send_output_setup_r E (ncalls is_SendOutputSetup tr) of
        Some e \<Rightarrow> Some e
      | None \<Rightarrow>
          (case send_input_setup_r E (ncalls is_SendInputSetup tr) of
             Inl e \<Rightarrow> Some e
           | Inr setp \<Rightarrow> None))"

definition attempt_events :: "env \<Rightarrow> trace \<Rightarrow> trace" where
  "attempt_events E tr =
     (case send_output_setup_r E (ncalls is_SendOutputSetup tr) of
        Some e \<Rightarrow> [SendOutputSetup]
      | None \<Rightarrow> [SendOutputSetup, SendInputSetup])"

text \<open>Every configuration attempt is rejected with a register conflict.\<close>

definition always_conflict :: "env \<Rightarrow> bool" where
  "always_conflict E \<longleftrightarrow>
     (\<forall>k. (case send_output_setup_r E k of Some e \<Rightarrow> is_register_conflict e | None \<Rightarrow> True) \<and>
          (case send_input_setup_r E k of Inl e \<Rightarrow> is_register_conflict e | Inr setp \<Rightarrow> False))"

text \<open>Disconnecting, the grace sleep and reconnecting never raise.\<close>

definition reconnect_ok :: "env \<Rightarrow> bool" where
  "reconnect_ok E \<longleftrightarrow>
     (\<forall>k. disconnect_r E k = None \<and> sleep_r E k = None \<and> connect_r E k = None \<and>
          get_controller_version_r E k = None)"

subsection \<open>Concrete environments\<close>

text \<open>
  A robot at rest at the position \<open>[0, -1.57, 0, -1.57, 0, 0]\<close>, and one whose wrist
  joint turns at 0.1 rad/s.
\<close>

definition still :: robot_state where
  "still = \<lparr>actual_q = [0, - 157 / 100, 0, - 157 / 100, 0, 0], actual_qd = [0, 0, 0, 0, 0, 0]\<rparr>"

definition moving :: robot_state where
  "moving = \<lparr>actual_q = [0, - 157 / 100, 0, - 157 / 100, 0, 1 / 100],
              actual_qd = [0, 0, 0, 0, 0, 1 / 10]\<rparr>"

text \<open>
  The operator confirms, every call succeeds, the robot is at rest at every poll, and
  the clock advances by one second from one reading to the next.
\<close>

definition env_ok :: env where
  "env_ok = \<lparr>input_r = Inr ''yes'', prepare_r = None, connect_r = (\<lambda>k. None),
     get_controller_version_r = (\<lambda>k. None), send_output_setup_r = (\<lambda>k. None),
     send_input_setup_r = (\<lambda>k. Inr True), send_start_r = Inr True,
     receive_r = (\<lambda>k. Inr (Some still)), send_r = (\<lambda>k. None), send_pause_r = None,
     disconnect_r = (\<lambda>k. None), sleep_r = (\<lambda>k. None), time_r = (\<lambda>k. real k)\<rparr>"


text \<open>The first sample polled shows a moving robot, then the telemetry is gone.\<close>

definition env_lost :: env where
  "env_lost = env_ok\<lparr>receive_r := (\<lambda>k. if k = 0 then Inr (Some moving) else Inr None)\<rparr>"

text \<open>The robot never comes to rest.\<close>

definition env_never_still :: env where
  "env_never_still = env_ok\<lparr>receive_r := (\<lambda>k. Inr (Some moving))\<rparr>"

text \<open>The controller reports its input registers as in use, every time.\<close>

definition env_conflict :: env where
  "env_conflict =
     env_ok\<lparr>send_input_setup_r :=
       (\<lambda>k. Inl (ValueError ''An input parameter is already in use.''))\<rparr>"

text \<open>The controller rejects the output recipe for another reason.\<close>

definition env_bad_recipe :: env where
  "env_bad_recipe =
     env_ok\<lparr>send_output_setup_r := (\<lambda>k. Some (ValueError ''Unknown field''))\<rparr>"


text \<open>The telemetry reports seven joint positions.\<close>

definition env_seven_joints :: env where
  "env_seven_joints =
     env_ok\<lparr>receive_r :=
       (\<lambda>k. Inr (Some \<lparr>actual_q = [0, 0, 0, 0, 0, 0, 0], actual_qd = [0, 0, 0, 0, 0, 0, 0]\<rparr>))\<rparr>"

text \<open>
  The first movement settles at its first poll (the second \<open>receive\<close> of the run), and
  the \<open>receive\<close> after it yields no sample.
\<close>

definition env_lost_after_settling :: env where
  "env_lost_after_settling =
     env_ok\<lparr>receive_r := (\<lambda>k. if k = 2 then Inr None else Inr (Some still))\<rparr>"

text \<open>
  Both movements settle at their first poll, and the \<open>receive\<close> after the second one
  (the fifth of the run) yields no sample.
\<close>

definition env_lost_after_return :: env where
  "env_lost_after_return =
     env_ok\<lparr>receive_r := (\<lambda>k. if k = 4 then Inr None else Inr (Some still))\<rparr>"



text \<open>
  The clock is set back between the first two readings of a wait: 5 seconds, then 3.
\<close>

definition env_clock_set_back :: env where
  "env_clock_set_back = env_ok\<lparr>time_r := (\<lambda>k. if k = 0 then 5 else 3)\<rparr>"

text \<open>
  The robot never comes to rest, and twenty seconds pass from one clock reading to the
  next.
\<close>

definition env_too_slow :: env where
  "env_too_slow = env_never_still\<lparr>time_r := (\<lambda>k. 20 * real k)\<rparr>"

section \<open>The safety validator\<close>

text \<open>
  The loop over the joints: it answers \<open>True\<close> exactly when no pair has a delta greater
  than the bound, and otherwise names the first pair that has.
\<close>

lemma check_joints_ok:
  "fst (check_joints ops i ps d) \<longleftrightarrow>
     (\<forall>k<length ps. \<not> fgt ops (fabs ops (fsub ops (snd (ps ! k)) (fst (ps ! k)))) d)"
proof (induction ps arbitrary: i)
  case Nil
  show ?case by simp
next
  case (Cons p ps)
  obtain c t where p: "p = (c, t)" by (cases p)
  show ?case
    using Cons.IH [of "Suc i"] by (auto simp: p Let_def less_Suc_eq_0_disj)
qed



lemma validate_ok_iff_ops:
  assumes "length current_pos = 6" and "length target_pos = 6"
  shows "fst (validate_joint_position ops current_pos target_pos max_delta) \<longleftrightarrow>
           (\<forall>i<6. \<not> fgt ops (fabs ops (fsub ops (target_pos ! i) (current_pos ! i))) max_delta)"
  using assms by (simp add: validate_joint_position_def check_joints_ok)

lemma validate_ok_iff:
  assumes "length current_pos = 6" and "length target_pos = 6"
  shows "fst (validate_joint_position exact_ops current_pos target_pos max_delta) \<longleftrightarrow>
           (\<forall>i<6. \<bar>target_pos ! i - current_pos ! i\<bar> \<le> max_delta)"
  unfolding validate_ok_iff_ops [OF assms] by (simp add: exact_ops_def not_less)




text \<open>
  Claim C8, as amended. When either vector does not have exactly six elements,
  \<open>validate_joint_position\<close> answers \<open>False\<close> with the message
  \<open>Invalid position dimensions\<close>, whatever the elements are: no element is compared, and
  the message carries no joint index and no magnitude.
\<close>

theorem validate_dimension_guard:
  assumes "length current_pos \<noteq> 6 \<or> length target_pos \<noteq> 6"
  shows "validate_joint_position ops current_pos target_pos max_delta =
           (False, Invalid_position_dimensions)
       \<and> reported_joint (snd (validate_joint_position ops current_pos target_pos max_delta)) = None"
  using assms by (simp add: validate_joint_position_def)

theorem validate_dimension_guard_witness:
  "validate_joint_position exact_ops [0, 0, 0, 0, 0] [1, 2, 3, 4, 5, 6, 7] (5 / 100) =
     (False, Invalid_position_dimensions) \<and>
   reported_joint
     (snd (validate_joint_position exact_ops [0, 0, 0, 0, 0] [1, 2, 3, 4, 5, 6, 7] (5 / 100))) =
     None"
proof -
  have h: "length [0, 0, 0, 0, 0 :: real] \<noteq> 6 \<or> length [1, 2, 3, 4, 5, 6, 7 :: real] \<noteq> 6"
    by simp
  show ?thesis
    using validate_dimension_guard [OF h, of exact_ops "5 / 100"] by simp
qed

text \<open>
  Claim C8 as stated fails: for a reference of five elements the answer reports neither a
  joint index nor a magnitude.
\<close>

theorem dimension_error_reports_no_joint:
  "reported_joint
     (snd (validate_joint_position exact_ops [0, 0, 0, 0, 0] [0, 0, 0, 0, 0, 0] (5 / 100))) = None"
  by (simp add: validate_joint_position_def)

section \<open>The motion-completion wait\<close>

text \<open>
  Counting calls in a trace, and one round of the polling loop at a time: a moving sample
  leads to the next round, a sample at rest, a missing sample and the timeout end the loop.
\<close>

lemma ncalls_append [simp]: "ncalls P (tr @ evs) = ncalls P tr + ncalls P evs"
  by (simp add: ncalls_def)

lemma ncalls_Nil [simp]: "ncalls P [] = 0"
  by (simp add: ncalls_def)

lemma ncalls_Cons [simp]: "ncalls P (e # evs) = (if P e then Suc (ncalls P evs) else ncalls P evs)"
  by (simp add: ncalls_def)

lemma max_abs_velocity_spec:
  assumes "actual_qd st \<noteq> []"
  shows "max_abs_velocity st = Inr (spec_max_abs_velocity st)"
proof -
  from assms obtain v vs where vs: "map abs (actual_qd st) = v # vs"
    by (cases "map abs (actual_qd st)") auto
  have "fold max vs v = Max (set (v # vs))"
    by (simp only: Max.set_eq_fold)
  also have "set (v # vs) = abs ` set (actual_qd st)"
    unfolding vs [symmetric] by simp
  finally show ?thesis
    by (simp add: max_abs_velocity_def vs spec_max_abs_velocity_def)
qed

lemma moving_sampleD:
  assumes "moving_sample r"
  obtains st where "r = Inr (Some st)"
    and "max_abs_velocity st = Inr (spec_max_abs_velocity st)"
    and "\<not> spec_max_abs_velocity st < 1 / 1000"
  using assms
  by (auto simp: moving_sample_def max_abs_velocity_spec split: sum.splits option.splits)


lemma wait_loop_moving:
  assumes "time_r E (ncalls is_Time tr) - start < T"
    and "moving_sample (receive_r E (ncalls is_Receive tr))"
    and "sleep_r E (ncalls is_Sleep tr) = None"
  shows "wait_loop E start T tr = wait_loop E start T (tr @ [Time, Receive, Sleep (1 / 100)])"
proof -
  from assms(2) obtain st where st: "receive_r E (ncalls is_Receive tr) = Inr (Some st)"
    "max_abs_velocity st = Inr (spec_max_abs_velocity st)"
    "\<not> spec_max_abs_velocity st < 1 / 1000"
    by (rule moving_sampleD)
  show ?thesis
    using assms(1,3) st
    by (subst wait_loop.simps) (simp add: time_def receive_def sleep_def raising_def)
qed

lemma wait_loop_unroll:
  assumes "\<forall>k<n. time_r E (ncalls is_Time tr + k) - start < T \<and>
                  moving_sample (receive_r E (ncalls is_Receive tr + k)) \<and>
                  sleep_r E (ncalls is_Sleep tr + k) = None"
  shows "wait_loop E start T tr = wait_loop E start T (tr @ poll_events n)"
  using assms
proof (induction n arbitrary: tr)
  case 0
  show ?case by (simp add: poll_events_def)
next
  case (Suc n)
  let ?tr = "tr @ [Time, Receive, Sleep (1 / 100)]"
  from Suc.prems have first: "time_r E (ncalls is_Time tr) - start < T"
    "moving_sample (receive_r E (ncalls is_Receive tr))"
    "sleep_r E (ncalls is_Sleep tr) = None"
    by force+
  have rest: "\<forall>k<n. time_r E (ncalls is_Time ?tr + k) - start < T \<and>
                  moving_sample (receive_r E (ncalls is_Receive ?tr + k)) \<and>
                  sleep_r E (ncalls is_Sleep ?tr + k) = None"
  proof (intro allI impI)
    fix k assume "k < n"
    then have "Suc k < Suc n" by simp
    with Suc.prems have "time_r E (ncalls is_Time tr + Suc k) - start < T \<and>
        moving_sample (receive_r E (ncalls is_Receive tr + Suc k)) \<and>
        sleep_r E (ncalls is_Sleep tr + Suc k) = None"
      by blast
    then show "time_r E (ncalls is_Time ?tr + k) - start < T \<and>
                  moving_sample (receive_r E (ncalls is_Receive ?tr + k)) \<and>
                  sleep_r E (ncalls is_Sleep ?tr + k) = None"
      by simp
  qed
  have "wait_loop E start T tr = wait_loop E start T ?tr"
    by (rule wait_loop_moving [OF first])
  also have "\<dots> = wait_loop E start T (?tr @ poll_events n)"
    by (rule Suc.IH [OF rest])
  also have "?tr @ poll_events n = tr @ poll_events (Suc n)"
    by (simp add: poll_events_def)
  finally show ?case .
qed


lemma wait_loop_lost:
  assumes "time_r E (ncalls is_Time tr) - start < T"
    and "receive_r E (ncalls is_Receive tr) = Inr None"
  shows "wait_loop E start T tr = Some (Inr False, tr @ [Time, Receive])"
  using assms
  by (subst wait_loop.simps) (simp add: time_def receive_def)

lemma wait_loop_timeout:
  assumes "T \<le> time_r E (ncalls is_Time tr) - start"
  shows "wait_loop E start T tr = Some (Inr False, tr @ [Time])"
  using assms
  by (subst wait_loop.simps) (simp add: time_def)

lemma keeps_moving_loop:
  assumes "keeps_moving E T tr n"
  shows "wait_for_move_completion E T tr =
           wait_loop E (time_r E (ncalls is_Time tr)) T (tr @ [Time] @ poll_events n)"
proof -
  have "\<forall>k<n. time_r E (ncalls is_Time (tr @ [Time]) + k) - time_r E (ncalls is_Time tr) < T \<and>
                  moving_sample (receive_r E (ncalls is_Receive (tr @ [Time]) + k)) \<and>
                  sleep_r E (ncalls is_Sleep (tr @ [Time]) + k) = None"
    using assms by (simp add: keeps_moving_def)
  from wait_loop_unroll [OF this] show ?thesis
    by (simp add: wait_for_move_completion_def time_def)
qed

lemma ncalls_poll_events [simp]:
  "ncalls is_Time (poll_events n) = n"
  "ncalls is_Receive (poll_events n) = n"
  "ncalls is_Sleep (poll_events n) = n"
  by (induction n) (simp_all add: poll_events_def)



text \<open>
  Claim C5, as amended. The wait has two return values. After \<open>n\<close> rounds that poll a
  moving sample, a \<open>receive\<close> that yields no sample makes it return \<open>False\<close> at once:
  nothing is received or slept after it. \<open>False\<close> is also what it returns when the
  timeout is reached, so the return value does not tell the two apart.
\<close>

theorem wait_lost_or_timed_out_is_False:
  assumes "keeps_moving E timeout tr n"
  shows "(time_r E (Suc (ncalls is_Time tr + n)) - time_r E (ncalls is_Time tr) < timeout \<and>
          receive_r E (ncalls is_Receive tr + n) = Inr None \<longrightarrow>
            wait_for_move_completion E timeout tr =
              Some (Inr False, tr @ [Time] @ poll_events n @ [Time, Receive]))
       \<and> (timeout \<le> time_r E (Suc (ncalls is_Time tr + n)) - time_r E (ncalls is_Time tr) \<longrightarrow>
            wait_for_move_completion E timeout tr =
              Some (Inr False, tr @ [Time] @ poll_events n @ [Time]))"
proof (intro conjI impI)
  assume "time_r E (Suc (ncalls is_Time tr + n)) - time_r E (ncalls is_Time tr) < timeout \<and>
          receive_r E (ncalls is_Receive tr + n) = Inr None"
  then show "wait_for_move_completion E timeout tr =
              Some (Inr False, tr @ [Time] @ poll_events n @ [Time, Receive])"
    unfolding keeps_moving_loop [OF assms]
    by (subst wait_loop_lost) simp_all
next
  assume "timeout \<le> time_r E (Suc (ncalls is_Time tr + n)) - time_r E (ncalls is_Time tr)"
  then show "wait_for_move_completion E timeout tr =
              Some (Inr False, tr @ [Time] @ poll_events n @ [Time])"
    unfolding keeps_moving_loop [OF assms]
    by (subst wait_loop_timeout) simp_all
qed

theorem wait_lost_or_timed_out_is_False_witness:
  "keeps_moving env_lost 10 [] 1 \<and>
   wait_for_move_completion env_lost 10 [] =
     Some (Inr False, [Time, Time, Receive, Sleep (1 / 100), Time, Receive]) \<and>
   keeps_moving env_never_still 2 [] 1 \<and>
   wait_for_move_completion env_never_still 2 [] =
     Some (Inr False, [Time, Time, Receive, Sleep (1 / 100), Time])"
proof -
  have h1: "keeps_moving env_lost 10 [] 1"
    by (simp add: keeps_moving_def env_lost_def env_ok_def moving_sample_def
        spec_max_abs_velocity_def moving_def)
  have h2: "keeps_moving env_never_still 2 [] 1"
    by (simp add: keeps_moving_def env_never_still_def env_ok_def moving_sample_def
        spec_max_abs_velocity_def moving_def)
  show ?thesis
    using h1 h2 wait_lost_or_timed_out_is_False [OF h1] wait_lost_or_timed_out_is_False [OF h2]
    by (simp add: env_lost_def env_never_still_def env_ok_def poll_events_def)
qed

text \<open>
  Claim C5 as stated fails: a lost session and a timeout give the same return value, there
  is no third outcome.
\<close>

theorem lost_and_timeout_same_value:
  "map_option fst (wait_for_move_completion env_lost 10 []) = Some (Inr False) \<and>
   map_option fst (wait_for_move_completion env_never_still 2 []) = Some (Inr False)"
  by code_simp

text \<open>
  Claim C10, as amended. The timeout check precedes every telemetry request: with a
  timeout that is zero or negative, and a clock that does not run backwards between the
  first two readings of the call, the wait returns \<open>False\<close> after reading the clock
  twice: no telemetry sample is requested, so it cannot return \<open>True\<close> even when the
  robot is at rest.
\<close>

theorem wait_nonpositive_timeout:
  assumes "timeout \<le> 0"
    and "time_r E (ncalls is_Time tr) \<le> time_r E (Suc (ncalls is_Time tr))"
  shows "wait_for_move_completion E timeout tr = Some (Inr False, tr @ [Time, Time])"
  using assms
  by (simp add: wait_for_move_completion_def time_def wait_loop_timeout)

theorem wait_nonpositive_timeout_witness:
  "(0 :: real) \<le> 0 \<and> time_r env_ok (ncalls is_Time []) \<le> time_r env_ok (Suc (ncalls is_Time [])) \<and>
   still_sample (receive_r env_ok 0) \<and>
   wait_for_move_completion env_ok 0 [] = Some (Inr False, [Time, Time])"
proof -
  have h1: "(0 :: real) \<le> 0" by simp
  have h2: "time_r env_ok (ncalls is_Time []) \<le> time_r env_ok (Suc (ncalls is_Time []))"
    by (simp add: env_ok_def)
  show ?thesis
    using h1 h2 wait_nonpositive_timeout [OF h1 h2]
    by (simp add: env_ok_def still_sample_def spec_max_abs_velocity_def still_def)
qed

text \<open>
  Claim C10 as stated fails: \<open>time.time()\<close> is the wall clock, and when it is set back
  between the two readings (5 seconds, then 3) the elapsed time is negative, hence below
  a timeout of zero: a sample is requested, and the robot at rest makes the wait return
  \<open>True\<close>.
\<close>

theorem clock_set_back_requests_a_sample:
  "wait_for_move_completion env_clock_set_back 0 [] = Some (Inr True, [Time, Time, Receive])"
  by code_simp

section \<open>Recipe configuration with retries\<close>

text \<open>
  One attempt of the retry loop: rejected for another reason, rejected with a conflict
  while budget is left, and rejected with a conflict on the last attempt.
\<close>

lemma configure_loop_rejected:
  assumes "rc < m" and "rejected E tr = Some e" and "\<not> is_register_conflict e"
  shows "configure_loop E m rc tr = (Inl e, tr @ attempt_events E tr)"
  using assms
  by (subst configure_loop.simps)
     (auto simp: rejected_def attempt_events_def send_output_setup_def send_input_setup_def
        raising_def split: option.splits sum.splits)

lemma configure_loop_retry:
  assumes "Suc rc < m" and "rejected E tr = Some e" and "is_register_conflict e"
    and "reconnect_ok E"
  shows "configure_loop E m rc tr =
           configure_loop E m (Suc rc)
             (tr @ attempt_events E tr @ [Disconnect, Sleep 2, Connect, GetControllerVersion])"
  using assms
  by (subst configure_loop.simps)
     (auto simp: rejected_def attempt_events_def send_output_setup_def send_input_setup_def
        disconnect_def sleep_def connect_def get_controller_version_def reconnect_ok_def
        raising_def split: option.splits sum.splits)

lemma configure_loop_last:
  assumes "Suc rc = m" and "rejected E tr = Some e" and "is_register_conflict e"
    and "reconnect_ok E"
  shows "configure_loop E m rc tr =
           (Inr (Inl ConfigureFailed), tr @ attempt_events E tr @ [Disconnect, Sleep 2])"
  using assms
  by (subst configure_loop.simps)
     (auto simp: rejected_def attempt_events_def send_output_setup_def send_input_setup_def
        disconnect_def sleep_def reconnect_ok_def
        raising_def split: option.splits sum.splits)

lemma always_conflict_rejected:
  assumes "always_conflict E"
  shows "\<exists>e. rejected E tr = Some e \<and> is_register_conflict e"
proof -
  from assms have
    a: "case send_output_setup_r E (ncalls is_SendOutputSetup tr) of
          Some e \<Rightarrow> is_register_conflict e | None \<Rightarrow> True"
    and b: "case send_input_setup_r E (ncalls is_SendInputSetup tr) of
          Inl e \<Rightarrow> is_register_conflict e | Inr setp \<Rightarrow> False"
    unfolding always_conflict_def by blast+
  then show ?thesis
    by (auto simp: rejected_def split: option.splits sum.splits)
qed

lemma attempt_events_calls [simp]:
  "ncalls is_SendOutputSetup (attempt_events E tr) = 1"
  "ncalls is_Disconnect (attempt_events E tr) = 0"
  "ncalls is_Connect (attempt_events E tr) = 0"
  "filter is_Sleep (attempt_events E tr) = []"
  by (simp_all add: attempt_events_def split: option.splits)

lemma configure_loop_exhausts:
  assumes "always_conflict E" and "reconnect_ok E" and "rc < m"
  shows "\<exists>tr'. configure_loop E m rc tr = (Inr (Inl ConfigureFailed), tr') \<and>
           ncalls is_SendOutputSetup tr' = ncalls is_SendOutputSetup tr + (m - rc) \<and>
           ncalls is_Disconnect tr' = ncalls is_Disconnect tr + (m - rc) \<and>
           ncalls is_Connect tr' = ncalls is_Connect tr + (m - rc - 1) \<and>
           filter is_Sleep tr' = filter is_Sleep tr @ replicate (m - rc) (Sleep 2)"
  using assms(3)
proof (induction "m - rc" arbitrary: rc tr)
  case 0
  then show ?case by simp
next
  case (Suc d)
  obtain e where e: "rejected E tr = Some e" "is_register_conflict e"
    using always_conflict_rejected [OF assms(1)] by blast
  show ?case
  proof (cases "Suc rc < m")
    case True
    let ?tr = "tr @ attempt_events E tr @ [Disconnect, Sleep 2, Connect, GetControllerVersion]"
    have d: "d = m - Suc rc" using Suc.hyps(2) by simp
    from Suc.hyps(1) [OF d True, of ?tr] obtain tr' where
      tr': "configure_loop E m (Suc rc) ?tr = (Inr (Inl ConfigureFailed), tr')"
        "ncalls is_SendOutputSetup tr' = ncalls is_SendOutputSetup ?tr + (m - Suc rc)"
        "ncalls is_Disconnect tr' = ncalls is_Disconnect ?tr + (m - Suc rc)"
        "ncalls is_Connect tr' = ncalls is_Connect ?tr + (m - Suc rc - 1)"
        "filter is_Sleep tr' = filter is_Sleep ?tr @ replicate (m - Suc rc) (Sleep 2)"
      by blast
    have step: "configure_loop E m rc tr = configure_loop E m (Suc rc) ?tr"
      by (rule configure_loop_retry [OF True e assms(2)])
    have rep: "replicate (m - rc) (Sleep 2) = Sleep 2 # replicate (m - Suc rc) (Sleep 2)"
      using True by (simp add: Suc_diff_Suc flip: replicate_Suc)
    show ?thesis
      using tr' True by (intro exI [of _ tr']) (simp add: step rep, arith)
  next
    case False
    with Suc.prems have m: "Suc rc = m" by simp
    show ?thesis
      using configure_loop_last [OF m e assms(2)] m
      by (intro exI [of _ "tr @ attempt_events E tr @ [Disconnect, Sleep 2]"]) auto
  qed
qed

text \<open>
  Claim C2, as amended. A rejection that is not a register conflict leaves the loop at
  once, as the exception it is. A register conflict with budget left is followed by a
  disconnect, a sleep of two seconds, a reconnect and the next attempt. With the budget
  of three and a controller that rejects every attempt with a register conflict, the
  loop makes exactly three attempts, three disconnects, each followed by the sleep of two
  seconds, and two reconnects, then returns the configuration failure: after the third
  conflict the budget is exhausted and nothing is reconnected.
\<close>

theorem configure_retry_policy:
  "(rc < m \<and> rejected E tr = Some e \<and> \<not> is_register_conflict e \<longrightarrow>
      configure_loop E m rc tr = (Inl e, tr @ attempt_events E tr))
 \<and> (Suc rc < m \<and> rejected E tr = Some e \<and> is_register_conflict e \<and> reconnect_ok E \<longrightarrow>
      configure_loop E m rc tr =
        configure_loop E m (Suc rc)
          (tr @ attempt_events E tr @ [Disconnect, Sleep 2, Connect, GetControllerVersion]))
 \<and> (always_conflict E \<and> reconnect_ok E \<longrightarrow>
      (\<exists>tr'. configure_loop E 3 0 tr = (Inr (Inl ConfigureFailed), tr') \<and>
         ncalls is_SendOutputSetup tr' = ncalls is_SendOutputSetup tr + 3 \<and>
         ncalls is_Disconnect tr' = ncalls is_Disconnect tr + 3 \<and>
         ncalls is_Connect tr' = ncalls is_Connect tr + 2 \<and>
         filter is_Sleep tr' = filter is_Sleep tr @ [Sleep 2, Sleep 2, Sleep 2]))"
proof (intro conjI impI)
  assume "always_conflict E \<and> reconnect_ok E"
  then have a: "always_conflict E" and b: "reconnect_ok E" by blast+
  have c: "(0::nat) < 3" by simp
  from configure_loop_exhausts [OF a b c, of tr]
  show "\<exists>tr'. configure_loop E 3 0 tr = (Inr (Inl ConfigureFailed), tr') \<and>
         ncalls is_SendOutputSetup tr' = ncalls is_SendOutputSetup tr + 3 \<and>
         ncalls is_Disconnect tr' = ncalls is_Disconnect tr + 3 \<and>
         ncalls is_Connect tr' = ncalls is_Connect tr + 2 \<and>
         filter is_Sleep tr' = filter is_Sleep tr @ [Sleep 2, Sleep 2, Sleep 2]"
    by (simp add: numeral_3_eq_3)
qed (simp_all add: configure_loop_rejected configure_loop_retry)

text \<open>
  Claim C2 as stated fails: with every attempt rejected there are three disconnects but
  only two reconnects, so there are not three disconnect/reconnect cycles.
\<close>

theorem conflict_three_disconnects_two_reconnects:
  "configure_loop env_conflict 3 0 [] =
     (Inr (Inl ConfigureFailed),
      [SendOutputSetup, SendInputSetup, Disconnect, Sleep 2, Connect, GetControllerVersion,
       SendOutputSetup, SendInputSetup, Disconnect, Sleep 2, Connect, GetControllerVersion,
       SendOutputSetup, SendInputSetup, Disconnect, Sleep 2]) \<and>
   ncalls is_Disconnect (snd (configure_loop env_conflict 3 0 [])) = 3 \<and>
   ncalls is_Connect (snd (configure_loop env_conflict 3 0 [])) = 2"
  by code_simp

theorem configure_retry_policy_witness:
  "always_conflict env_conflict \<and> reconnect_ok env_conflict \<and>
   (\<exists>tr'. configure_loop env_conflict 3 0 [] = (Inr (Inl ConfigureFailed), tr') \<and>
         ncalls is_SendOutputSetup tr' = ncalls is_SendOutputSetup [] + 3 \<and>
         ncalls is_Disconnect tr' = ncalls is_Disconnect [] + 3 \<and>
         ncalls is_Connect tr' = ncalls is_Connect [] + 2 \<and>
         filter is_Sleep tr' = filter is_Sleep [] @ [Sleep 2, Sleep 2, Sleep 2]) \<and>
   rejected env_bad_recipe [] = Some (ValueError ''Unknown field'') \<and>
   configure_loop env_bad_recipe 3 0 [] = (Inl (ValueError ''Unknown field''), [SendOutputSetup])"
proof -
  have h1: "always_conflict env_conflict"
    by (simp add: always_conflict_def env_conflict_def env_ok_def)
  have h2: "reconnect_ok env_conflict"
    by (simp add: reconnect_ok_def env_conflict_def env_ok_def)
  have h3: "rejected env_bad_recipe [] = Some (ValueError ''Unknown field'')"
    by (simp add: rejected_def env_bad_recipe_def env_ok_def)
  have h4: "\<not> is_register_conflict (ValueError ''Unknown field'')"
    by simp
  have a: "\<exists>tr'. configure_loop env_conflict 3 0 [] = (Inr (Inl ConfigureFailed), tr') \<and>
         ncalls is_SendOutputSetup tr' = ncalls is_SendOutputSetup [] + 3 \<and>
         ncalls is_Disconnect tr' = ncalls is_Disconnect [] + 3 \<and>
         ncalls is_Connect tr' = ncalls is_Connect [] + 2 \<and>
         filter is_Sleep tr' = filter is_Sleep [] @ [Sleep 2, Sleep 2, Sleep 2]"
    using configure_retry_policy [of 0 3 env_conflict "[]"] h1 h2 by blast
  have "configure_loop env_bad_recipe 3 0 [] =
      (Inl (ValueError ''Unknown field''), [] @ attempt_events env_bad_recipe [])"
    using configure_retry_policy [of 0 3 env_bad_recipe "[]" "ValueError ''Unknown field''"] h3 h4
    by simp
  then have b: "configure_loop env_bad_recipe 3 0 [] =
      (Inl (ValueError ''Unknown field''), [SendOutputSetup])"
    by (simp add: attempt_events_def env_bad_recipe_def env_ok_def)
  show ?thesis
    using h1 h2 h3 a b by blast
qed

section \<open>What each part of the run adds to the trace\<close>

text \<open>
  The lemmas of this section say what the events are that a part of the script appends
  to the trace, whatever the environment answers. They are used for the properties of
  whole runs in the next section.
\<close>

lemma all_received_append:
  "ncalls is_Receive evs = 0 \<Longrightarrow> all_received E (tr @ evs) = all_received E tr"
  by (simp add: all_received_def)

lemma all_received_Receive:
  "all_received E (tr @ [Receive]) \<longleftrightarrow>
     all_received E tr \<and> (\<exists>st. receive_r E (ncalls is_Receive tr) = Inr (Some st))"
  by (auto simp: all_received_def less_Suc_eq split: sum.splits option.splits)

text \<open>
  The polling loop, by the induction rule of the partial function: it appends clock
  readings, receives and sleeps only; when it returns \<open>True\<close>, each of its receives
  yielded a sample.
\<close>

lemma wait_loop_events_aux:
  assumes "wait_loop E start T tr = Some y"
  shows "\<exists>evs. snd y = tr @ evs \<and> (\<forall>e\<in>set evs. quiet e) \<and>
           (fst y = Inr True \<longrightarrow> all_received E tr \<longrightarrow> all_received E (snd y))"
  apply (rule wait_loop.raw_induct [OF _ assms, where P = "\<lambda>E start T tr y.
    \<exists>evs. snd y = tr @ evs \<and> (\<forall>e\<in>set evs. quiet e) \<and>
           (fst y = Inr True \<longrightarrow> all_received E tr \<longrightarrow> all_received E (snd y))"])
  subgoal premises prems for wl E start T tr y
  proof -
    let ?poll = "[Time, Receive, Sleep (1 / 100)]"
    note IH = prems(1) and body = prems(2)
    define now where "now = time_r E (ncalls is_Time tr)"
    define rcv where "rcv = receive_r E (ncalls is_Receive tr)"
    define slp where "slp = sleep_r E (ncalls is_Sleep tr)"
    have step: "(if now - start < T then
        (case rcv of
           Inl e \<Rightarrow> Some (Inl e, tr @ [Time, Receive])
         | Inr None \<Rightarrow> Some (Inr False, tr @ [Time, Receive])
         | Inr (Some st) \<Rightarrow>
             (case max_abs_velocity st of
                Inl e \<Rightarrow> Some (Inl e, tr @ [Time, Receive])
              | Inr v \<Rightarrow>
                  if v < 1 / 1000 then Some (Inr True, tr @ [Time, Receive])
                  else (case slp of
                          Some e \<Rightarrow> Some (Inl e, tr @ ?poll)
                        | None \<Rightarrow> wl E start T (tr @ ?poll))))
        else Some (Inr False, tr @ [Time])) = Some y"
      using body
      by (cases "time_r E (ncalls is_Time tr) - start < T")
         (auto simp: time_def receive_def sleep_def raising_def now_def rcv_def slp_def
            split: sum.splits option.splits)
    have cases3: "(\<exists>evs. (y = (Inr False, tr @ evs) \<or> (\<exists>e. y = (Inl e, tr @ evs))) \<and>
          (evs = [Time] \<or> evs = [Time, Receive] \<or> evs = ?poll))
       \<or> (y = (Inr True, tr @ [Time, Receive]) \<and> (\<exists>st. rcv = Inr (Some st)))
       \<or> (wl E start T (tr @ ?poll) = Some y \<and> (\<exists>st. rcv = Inr (Some st)))"
    proof (cases "now - start < T")
      case False
      with step show ?thesis by auto
    next
      case True
      note within = this
      show ?thesis
      proof (cases rcv)
        case (Inl e)
        with step within show ?thesis by auto
      next
        case (Inr s)
        note s = this
        show ?thesis
        proof (cases s)
          case None
          with step within s show ?thesis by auto
        next
          case (Some st)
          note st = this
          show ?thesis
          proof (cases "max_abs_velocity st")
            case (Inl e)
            with step within s st show ?thesis by auto
          next
            case (Inr v)
            note v = this
            show ?thesis
            proof (cases "v < 1 / 1000")
              case True
              with step within s st v show ?thesis by auto
            next
              case False
              with step within s st v show ?thesis
                by (cases slp) auto
            qed
          qed
        qed
      qed
    qed
    then consider
      (stop) evs where "y = (Inr False, tr @ evs) \<or> (\<exists>e. y = (Inl e, tr @ evs))"
        "evs = [Time] \<or> evs = [Time, Receive] \<or> evs = ?poll"
    | (still) st where "y = (Inr True, tr @ [Time, Receive])"
        "receive_r E (ncalls is_Receive tr) = Inr (Some st)"
    | (again) st where "wl E start T (tr @ ?poll) = Some y"
        "receive_r E (ncalls is_Receive tr) = Inr (Some st)"
      unfolding rcv_def by blast
    then show ?thesis
    proof cases
      case stop
      then show ?thesis
        by (intro exI [of _ evs]) (auto simp: quiet_def)
    next
      case still
      have "all_received E tr \<Longrightarrow> all_received E ((tr @ [Time]) @ [Receive])"
        unfolding all_received_Receive using still(2) by (simp add: all_received_append)
      with still(1) show ?thesis
        by (intro exI [of _ "[Time, Receive]"]) (simp add: quiet_def)
    next
      case again
      from IH [OF again(1)] obtain evs where evs: "snd y = (tr @ ?poll) @ evs"
        "\<forall>e\<in>set evs. quiet e"
        "fst y = Inr True \<longrightarrow> all_received E (tr @ ?poll) \<longrightarrow> all_received E (snd y)"
        by blast
      have "all_received E tr \<Longrightarrow> all_received E (tr @ ?poll)"
      proof -
        assume a: "all_received E tr"
        have "all_received E ((tr @ [Time]) @ [Receive])"
          unfolding all_received_Receive using a again(2) by (simp add: all_received_append)
        then have "all_received E (((tr @ [Time]) @ [Receive]) @ [Sleep (1 / 100)])"
          by (subst all_received_append) simp_all
        then show ?thesis by simp
      qed
      with evs show ?thesis
        by (intro exI [of _ "?poll @ evs"]) (auto simp: quiet_def)
    qed
  qed
  done

lemma wait_loop_events:
  assumes "wait_loop E start T tr = Some (r, tr')"
  shows "\<exists>evs. tr' = tr @ evs \<and> (\<forall>e\<in>set evs. quiet e) \<and>
           (r = Inr True \<longrightarrow> all_received E tr \<longrightarrow> all_received E tr')"
  using wait_loop_events_aux [OF assms] by simp

lemma wait_events:
  assumes "wait_for_move_completion E T tr = Some (r, tr')"
  shows "\<exists>evs. tr' = tr @ evs \<and> (\<forall>e\<in>set evs. quiet e) \<and>
           (r = Inr True \<longrightarrow> all_received E tr \<longrightarrow> all_received E tr')"
proof -
  from assms have "wait_loop E (time_r E (ncalls is_Time tr)) T (tr @ [Time]) = Some (r, tr')"
    by (simp add: wait_for_move_completion_def time_def)
  from wait_loop_events [OF this] obtain evs where evs: "tr' = (tr @ [Time]) @ evs"
    "\<forall>e\<in>set evs. quiet e"
    "r = Inr True \<longrightarrow> all_received E (tr @ [Time]) \<longrightarrow> all_received E tr'"
    by blast
  then show ?thesis
    by (intro exI [of _ "Time # evs"]) (auto simp: quiet_def all_received_append)
qed



text \<open>
  The retry loop neither sends a target nor pauses nor receives; by induction on the
  budget that is left.
\<close>

lemma configure_loop_events_aux:
  "\<exists>evs. snd (configure_loop E m rc tr) = tr @ evs \<and>
         (\<forall>e\<in>set evs. quiet e \<and> \<not> is_Receive e)"
proof (induction "m - rc" arbitrary: rc tr)
  case 0
  then show ?case
    by (subst configure_loop.simps) simp
next
  case (Suc d)
  then have rc: "rc < m" and d: "d = m - Suc rc"
    by simp_all
  show ?case
  proof -
    obtain x y where xy: "(case send_output_setup E tr of (Inl e, tr1) \<Rightarrow> (Inl e, tr1)
          | (Inr u, tr1) \<Rightarrow> send_input_setup E tr1) = (x, y)"
      by (cases "case send_output_setup E tr of (Inl e, tr1) \<Rightarrow> (Inl e, tr1)
          | (Inr u, tr1) \<Rightarrow> send_input_setup E tr1")
    have y: "y = tr @ [SendOutputSetup] \<or> y = tr @ [SendOutputSetup, SendInputSetup]"
      using xy
      by (auto simp: send_output_setup_def send_input_setup_def raising_def
          split: option.splits sum.splits)
    show ?thesis
    proof (cases "\<exists>a. x = Inl a \<and> is_register_conflict a \<and>
        disconnect_r E (ncalls is_Disconnect y) = None \<and>
        sleep_r E (ncalls is_Sleep y) = None \<and> Suc rc < m \<and>
        connect_r E (ncalls is_Connect y) = None \<and>
        get_controller_version_r E (ncalls is_GetControllerVersion y) = None")
      case True
      then obtain a where a: "x = Inl a" "is_register_conflict a"
        "disconnect_r E (ncalls is_Disconnect y) = None"
        "sleep_r E (ncalls is_Sleep y) = None" "Suc rc < m"
        "connect_r E (ncalls is_Connect y) = None"
        "get_controller_version_r E (ncalls is_GetControllerVersion y) = None"
        by blast
      let ?yd = "y @ [Disconnect, Sleep 2, Connect, GetControllerVersion]"
      have "\<exists>evs. snd (configure_loop E m (Suc rc) ?yd) = ?yd @ evs \<and>
         (\<forall>e\<in>set evs. quiet e \<and> \<not> is_Receive e)"
        by (rule Suc.hyps(1) [OF d])
      then obtain evs where evs: "snd (configure_loop E m (Suc rc) ?yd) = ?yd @ evs"
        "\<forall>e\<in>set evs. quiet e \<and> \<not> is_Receive e"
        by blast
      have "configure_loop E m rc tr = configure_loop E m (Suc rc) ?yd"
        using a rc xy
        by (subst configure_loop.simps)
           (simp add: disconnect_def sleep_def connect_def get_controller_version_def
              raising_def)
      with evs y show ?thesis
        by (auto simp: quiet_def)
    next
      case False
      have "snd (configure_loop E m rc tr) = y \<or>
            snd (configure_loop E m rc tr) = y @ [Disconnect] \<or>
            snd (configure_loop E m rc tr) = y @ [Disconnect, Sleep 2] \<or>
            snd (configure_loop E m rc tr) = y @ [Disconnect, Sleep 2, Connect] \<or>
            snd (configure_loop E m rc tr) = y @ [Disconnect, Sleep 2, Connect, GetControllerVersion]"
        using False rc xy
        by (subst (1 2 3 4 5) configure_loop.simps)
           (auto simp: disconnect_def sleep_def connect_def get_controller_version_def
              raising_def split: sum.splits option.splits)
      with y show ?thesis
        by (auto simp: quiet_def)
    qed
  qed
qed

lemma all_received_count:
  "ncalls is_Receive tr' = ncalls is_Receive tr \<Longrightarrow> all_received E tr' = all_received E tr"
  by (simp add: all_received_def)

text \<open>
  Lines 170-235 end with the one \<open>receive\<close> that reads the current position.
\<close>

lemma session_setup_events:
  assumes "session_setup E tr = (r, tr')"
  shows "\<exists>evs. tr' = tr @ evs \<and> (\<forall>e\<in>set evs. quiet e) \<and>
           (\<forall>cur. r = Inr (Inr cur) \<longrightarrow>
              (\<exists>st. receive_r E (ncalls is_Receive tr) = Inr (Some st) \<and> cur = actual_q st) \<and>
              ncalls is_Receive evs = 1)"
proof -
  define t2 where "t2 = tr @ [Connect, GetControllerVersion]"
  obtain cr ctr where c: "configure_loop E 3 0 t2 = (cr, ctr)"
    by (cases "configure_loop E 3 0 t2")
  from configure_loop_events_aux [of E 3 0 t2] c obtain cevs where
    cevs: "ctr = t2 @ cevs" "\<forall>e\<in>set cevs. quiet e \<and> \<not> is_Receive e"
    by auto
  have nrecv: "ncalls is_Receive cevs = 0"
    using cevs(2) by (simp add: ncalls_def)
  have "(tr' = tr @ [Connect] \<or> tr' = t2 \<or> tr' = ctr \<or> tr' = ctr @ [SendStart] \<or>
         tr' = ctr @ [SendStart, Receive]) \<and>
        (\<forall>cur. r = Inr (Inr cur) \<longrightarrow> tr' = ctr @ [SendStart, Receive] \<and>
           (\<exists>st. receive_r E (ncalls is_Receive ctr) = Inr (Some st) \<and> cur = actual_q st))"
    using assms c
    by (auto simp: session_setup_def seq_def ret_def connect_def get_controller_version_def
        send_start_def receive_def raising_def t2_def
        split: option.splits sum.splits if_splits)
  then show ?thesis
    using cevs nrecv
    by (intro exI [of _ "drop (length tr) tr'"]) (auto simp: t2_def quiet_def)
qed

text \<open>
  One movement: exactly one target is sent, and a completed movement received a sample
  at each of its receives.
\<close>

lemma movement_events:
  assumes "movement E tgt tr = Some (r, tr')"
  shows "\<exists>evs. tr' = tr @ evs \<and> (\<forall>e\<in>set evs. \<not> is_SendPause e) \<and>
           filter is_Send evs = (if length tgt < 6 then [] else [Send (take 6 tgt)]) \<and>
           (r = Inr True \<longrightarrow> 6 \<le> length tgt \<and> (all_received E tr \<longrightarrow> all_received E tr'))"
proof (cases "length tgt < 6")
  case True
  with assms show ?thesis
    by (auto simp: movement_def send_target_def)
next
  case False
  define t1 where "t1 = tr @ [Send (take 6 tgt)]"
  show ?thesis
  proof (cases "send_r E (ncalls is_Send tr)")
    case (Some e)
    with assms False show ?thesis
      by (auto simp: movement_def send_target_def send_def raising_def)
  next
    case None
    obtain wr wtr where w: "wait_for_move_completion E MOVEMENT_TIMEOUT t1 = Some (wr, wtr)"
      using assms False None
      by (cases "wait_for_move_completion E MOVEMENT_TIMEOUT t1")
         (auto simp: movement_def send_target_def send_def raising_def t1_def)
    from wait_events [OF w] obtain wevs where wevs: "wtr = t1 @ wevs"
      "\<forall>e\<in>set wevs. quiet e"
      "wr = Inr True \<longrightarrow> all_received E t1 \<longrightarrow> all_received E wtr"
      by blast
    have sends: "filter is_Send wevs = []" and pauses: "\<forall>e\<in>set wevs. \<not> is_SendPause e"
      using wevs(2) by (auto simp: quiet_def filter_empty_conv)
    have t1r: "all_received E t1 = all_received E tr"
      by (rule all_received_count) (simp add: t1_def)
    have "(tr' = wtr \<and> r \<noteq> Inr True) \<or>
          (tr' = wtr @ [Receive] \<and> wr = Inr True \<and>
           (r = Inr True \<longrightarrow> (\<exists>st. receive_r E (ncalls is_Receive wtr) = Inr (Some st))))"
      using assms False None w
      by (auto simp: movement_def send_target_def send_def raising_def receive_def t1_def
          split: sum.splits option.splits bool.splits)
    then show ?thesis
    proof
      assume "tr' = wtr \<and> r \<noteq> Inr True"
      then show ?thesis
        using wevs(1) sends pauses False
        by (intro exI [of _ "Send (take 6 tgt) # wevs"]) (simp add: t1_def)
    next
      assume a: "tr' = wtr @ [Receive] \<and> wr = Inr True \<and>
           (r = Inr True \<longrightarrow> (\<exists>st. receive_r E (ncalls is_Receive wtr) = Inr (Some st)))"
      have "r = Inr True \<Longrightarrow> all_received E tr \<Longrightarrow> all_received E (wtr @ [Receive])"
        using a wevs(3) t1r by (simp add: all_received_Receive)
      then show ?thesis
        using a wevs(1) sends pauses False
        by (intro exI [of _ "Send (take 6 tgt) # wevs @ [Receive]"]) (auto simp: t1_def)
    qed
  qed
qed

lemma validate_lengths:
  "fst (validate_joint_position exact_ops a b d) \<Longrightarrow> length a = 6 \<and> length b = 6"
  by (auto simp: validate_joint_position_def split: if_splits)

text \<open>
  Lines 237-309: nothing is sent unless both validations passed; then the first target
  is sent, and the second only after the first movement completed.
\<close>

lemma test_movements_events:
  assumes "test_movements E cur tr = Some (r, tr')"
  shows "\<exists>evs. tr' = tr @ evs \<and> (\<forall>e\<in>set evs. \<not> is_SendPause e) \<and>
     (filter is_Send evs = [] \<or>
      (\<exists>tp1. target_pos_1 cur = Inr tp1 \<and>
         fst (validate_joint_position exact_ops cur tp1 MAX_JOINT_MOVEMENT) \<and>
         fst (validate_joint_position exact_ops tp1 cur MAX_JOINT_MOVEMENT) \<and>
         (filter is_Send evs = [Send tp1] \<or> filter is_Send evs = [Send tp1, Send cur]))) \<and>
     (r = Inr Completed \<longrightarrow>
        (\<exists>tp1. target_pos_1 cur = Inr tp1 \<and> filter is_Send evs = [Send tp1, Send cur]) \<and>
        (all_received E tr \<longrightarrow> all_received E tr')) \<and>
     (\<forall>m. r = Inr (Validation1Failed m) \<or> r = Inr (Validation2Failed m) \<longrightarrow> evs = []) \<and>
     (\<forall>tp1. target_pos_1 cur = Inr tp1 \<longrightarrow> length (filter is_Send evs) = 2 \<longrightarrow>
        (\<exists>tr2. movement E tp1 (tr @ [Sleep 2]) = Some (Inr True, tr2)))"
proof (cases "target_pos_1 cur")
  case (Inl e)
  with assms show ?thesis
    by (auto simp: test_movements_def)
next
  case (Inr tp1)
  note tp1 = this
  show ?thesis
  proof (cases "fst (validate_joint_position exact_ops cur tp1 MAX_JOINT_MOVEMENT) \<and>
                fst (validate_joint_position exact_ops tp1 cur MAX_JOINT_MOVEMENT)")
    case False
    with assms tp1 show ?thesis
      by (auto simp: test_movements_def Let_def split: prod.splits if_splits)
  next
    case True
    then have v1: "fst (validate_joint_position exact_ops cur tp1 MAX_JOINT_MOVEMENT)"
      and v2: "fst (validate_joint_position exact_ops tp1 cur MAX_JOINT_MOVEMENT)"
      by simp_all
    from validate_lengths [OF v1] have len: "length cur = 6" "length tp1 = 6"
      by simp_all
    define t1 where "t1 = tr @ [Sleep 2]"
    have run1: "test_movements E cur tr =
      (case sleep_r E (ncalls is_Sleep tr) of
         Some e \<Rightarrow> Some (Inl e, t1)
       | None \<Rightarrow>
          (case movement E tp1 t1 of
             None \<Rightarrow> None
           | Some (Inl e, tr2) \<Rightarrow> Some (Inl e, tr2)
           | Some (Inr False, tr2) \<Rightarrow> Some (Inr Movement1Timeout, tr2)
           | Some (Inr True, tr2) \<Rightarrow>
              (case sleep_r E (ncalls is_Sleep tr2) of
                 Some e \<Rightarrow> Some (Inl e, tr2 @ [Sleep 1])
               | None \<Rightarrow>
                  (case movement E cur (tr2 @ [Sleep 1]) of
                     None \<Rightarrow> None
                   | Some (Inl e, tr4) \<Rightarrow> Some (Inl e, tr4)
                   | Some (Inr False, tr4) \<Rightarrow> Some (Inr Movement2Timeout, tr4)
                   | Some (Inr True, tr4) \<Rightarrow> Some (Inr Completed, tr4)))))"
      using tp1 v1 v2
      by (auto simp: test_movements_def Let_def sleep_def raising_def t1_def
          split: prod.splits option.splits sum.splits bool.splits)
    show ?thesis
    proof (cases "sleep_r E (ncalls is_Sleep tr)")
      case (Some e)
      with assms run1 have "r = Inl e" "tr' = tr @ [Sleep 2]"
        by (simp_all add: t1_def)
      then show ?thesis
        by (intro exI [of _ "[Sleep 2]"]) simp
    next
      case None
      note s1 = this
      obtain m1r m1tr where m1: "movement E tp1 t1 = Some (m1r, m1tr)"
        using assms run1 s1 by (cases "movement E tp1 t1") auto
      from movement_events [OF m1] len obtain evs1 where evs1: "m1tr = t1 @ evs1"
        "\<forall>e\<in>set evs1. \<not> is_SendPause e" "filter is_Send evs1 = [Send tp1]"
        "m1r = Inr True \<longrightarrow> all_received E t1 \<longrightarrow> all_received E m1tr"
        by auto
      have t1r: "all_received E t1 = all_received E tr"
        by (rule all_received_count) (simp add: t1_def)
      show ?thesis
      proof (cases "m1r = Inr True")
        case False
        then have "tr' = m1tr" "r \<noteq> Inr Completed" "\<forall>m. r \<noteq> Inr (Validation1Failed m)"
          "\<forall>m. r \<noteq> Inr (Validation2Failed m)"
          using assms run1 s1 m1
          by (auto split: sum.splits bool.splits)
        then show ?thesis
          using evs1 tp1 v1 v2
          by (intro exI [of _ "Sleep 2 # evs1"]) (simp add: t1_def)
      next
        case True
        note m1True = this
        define t3 where "t3 = m1tr @ [Sleep 1]"
        show ?thesis
        proof (cases "sleep_r E (ncalls is_Sleep m1tr)")
          case (Some e)
          then have "tr' = m1tr @ [Sleep 1]" "r = Inl e"
            using assms run1 s1 m1 m1True by auto
          then show ?thesis
            using evs1 tp1 v1 v2 m1 m1True
            by (intro exI [of _ "Sleep 2 # evs1 @ [Sleep 1]"]) (auto simp: t1_def)
        next
          case None
          note s2 = this
          obtain m2r m2tr where m2: "movement E cur t3 = Some (m2r, m2tr)"
            using assms run1 s1 m1 m1True s2
            by (cases "movement E cur t3") (auto simp: t3_def)
          from movement_events [OF m2] len obtain evs2 where evs2: "m2tr = t3 @ evs2"
            "\<forall>e\<in>set evs2. \<not> is_SendPause e" "filter is_Send evs2 = [Send cur]"
            "m2r = Inr True \<longrightarrow> all_received E t3 \<longrightarrow> all_received E m2tr"
            by auto
          have t3r: "all_received E t3 = all_received E m1tr"
            by (rule all_received_count) (simp add: t3_def)
          have res: "tr' = m2tr" "r = Inr Completed \<longleftrightarrow> m2r = Inr True"
            "\<forall>m. r \<noteq> Inr (Validation1Failed m)" "\<forall>m. r \<noteq> Inr (Validation2Failed m)"
            using assms run1 s1 m1 m1True s2 m2
            by (auto simp: t3_def split: sum.splits bool.splits)
          have "r = Inr Completed \<longrightarrow> all_received E tr \<longrightarrow> all_received E tr'"
            using res evs1(4) evs2(4) t1r t3r m1True by simp
          then show ?thesis
            using res evs1 evs2 tp1 v1 v2 m1 m1True
            by (intro exI [of _ "Sleep 2 # evs1 @ Sleep 1 # evs2"]) (auto simp: t1_def t3_def)
        qed
      qed
    qed
  qed
qed

lemma configure_loop_outcome:
  "fst (configure_loop E m rc tr) = Inr (Inl out) \<Longrightarrow> out = ConfigureFailed"
proof (induction "m - rc" arbitrary: rc tr)
  case 0
  then show ?case
    by (subst (asm) configure_loop.simps) simp
next
  case (Suc d)
  then have rc: "rc < m" and d: "d = m - Suc rc"
    by simp_all
  note IH = Suc.hyps(1) [OF d]
  show ?case
    using Suc.prems rc
    by (subst (asm) configure_loop.simps)
       (auto split: prod.splits sum.splits if_splits dest: IH)
qed

lemma session_setup_outcome:
  assumes "session_setup E tr = (Inr (Inl out), tr')"
  shows "out = ConfigureFailed \<or> out = SetupFailed \<or> out = StartFailed \<or> out = NoState"
proof -
  define t2 where "t2 = tr @ [Connect, GetControllerVersion]"
  obtain cr ctr where c: "configure_loop E 3 0 t2 = (cr, ctr)"
    by (cases "configure_loop E 3 0 t2")
  have "\<And>out. cr = Inr (Inl out) \<Longrightarrow> out = ConfigureFailed"
    using configure_loop_outcome [of E 3 0 t2] c by simp
  then show ?thesis
    using assms c
    by (auto simp: session_setup_def seq_def ret_def connect_def get_controller_version_def
        send_start_def receive_def raising_def t2_def
        split: option.splits sum.splits if_splits)
qed

lemma all_received_one_more:
  assumes "all_received E tr" and "receive_r E (ncalls is_Receive tr) = Inr (Some st)"
    and "ncalls is_Receive evs = 1"
  shows "all_received E (tr @ evs)"
  using assms by (auto simp: all_received_def less_Suc_eq)

text \<open>
  The body of the \<open>try\<close> statement as a whole.
\<close>

lemma try_body_events:
  assumes "try_body E tr = Some (r, tr')"
  shows "\<exists>evs. tr' = tr @ evs \<and> (\<forall>e\<in>set evs. \<not> is_SendPause e) \<and>
     (filter is_Send evs = [] \<or>
      (\<exists>st tp1. receive_r E (ncalls is_Receive tr) = Inr (Some st) \<and>
         target_pos_1 (actual_q st) = Inr tp1 \<and>
         fst (validate_joint_position exact_ops (actual_q st) tp1 MAX_JOINT_MOVEMENT) \<and>
         fst (validate_joint_position exact_ops tp1 (actual_q st) MAX_JOINT_MOVEMENT) \<and>
         (filter is_Send evs = [Send tp1] \<or>
          filter is_Send evs = [Send tp1, Send (actual_q st)]))) \<and>
     (r = Inr Completed \<longrightarrow> (all_received E tr \<longrightarrow> all_received E tr')) \<and>
     (\<forall>m. r = Inr (Validation1Failed m) \<or> r = Inr (Validation2Failed m) \<longrightarrow>
        filter is_Send evs = [])"
proof -
  obtain sr str where s: "session_setup E tr = (sr, str)"
    by (cases "session_setup E tr")
  from session_setup_events [OF s] obtain sevs where sevs: "str = tr @ sevs"
    "\<forall>e\<in>set sevs. quiet e"
    "\<forall>cur. sr = Inr (Inr cur) \<longrightarrow>
       (\<exists>st. receive_r E (ncalls is_Receive tr) = Inr (Some st) \<and> cur = actual_q st) \<and>
       ncalls is_Receive sevs = 1"
    by blast
  have quiet: "filter is_Send sevs = []" "\<forall>e\<in>set sevs. \<not> is_SendPause e"
    using sevs(2) by (auto simp: quiet_def filter_empty_conv)
  show ?thesis
  proof (cases "\<exists>cur. sr = Inr (Inr cur)")
    case False
    then have early: "tr' = str" "r = Inl (projl sr) \<and> isl sr \<or> (\<exists>out. sr = Inr (Inl out) \<and> r = Inr out)"
      using assms s by (auto simp: try_body_def split: sum.splits)
    have "r \<noteq> Inr Completed" "\<forall>m. r \<noteq> Inr (Validation1Failed m)"
      "\<forall>m. r \<noteq> Inr (Validation2Failed m)"
      using early(2) session_setup_outcome s by fastforce+
    then show ?thesis
      using early(1) sevs(1) quiet by (intro exI [of _ sevs]) simp
  next
    case True
    then obtain cur where cur: "sr = Inr (Inr cur)" by blast
    with sevs(3) obtain st where st: "receive_r E (ncalls is_Receive tr) = Inr (Some st)"
      "cur = actual_q st" and one: "ncalls is_Receive sevs = 1"
      by blast
    have tm: "test_movements E cur str = Some (r, tr')"
      using assms s cur by (simp add: try_body_def)
    from test_movements_events [OF tm] obtain evs where evs: "tr' = str @ evs"
      "\<forall>e\<in>set evs. \<not> is_SendPause e"
      "filter is_Send evs = [] \<or>
        (\<exists>tp1. target_pos_1 cur = Inr tp1 \<and>
           fst (validate_joint_position exact_ops cur tp1 MAX_JOINT_MOVEMENT) \<and>
           fst (validate_joint_position exact_ops tp1 cur MAX_JOINT_MOVEMENT) \<and>
           (filter is_Send evs = [Send tp1] \<or> filter is_Send evs = [Send tp1, Send cur]))"
      "r = Inr Completed \<longrightarrow> (all_received E str \<longrightarrow> all_received E tr')"
      "\<forall>m. r = Inr (Validation1Failed m) \<or> r = Inr (Validation2Failed m) \<longrightarrow> evs = []"
      by blast
    have "all_received E tr \<Longrightarrow> all_received E str"
      unfolding sevs(1) using st(1) one by (simp add: all_received_one_more)
    with evs(4) have compl: "r = Inr Completed \<longrightarrow> (all_received E tr \<longrightarrow> all_received E tr')"
      by blast
    have val: "\<forall>m. r = Inr (Validation1Failed m) \<or> r = Inr (Validation2Failed m) \<longrightarrow>
        filter is_Send (sevs @ evs) = []"
      using evs(5) quiet(1) by auto
    show ?thesis
      using evs(1,2,3) sevs(1) quiet st compl val
      by (intro exI [of _ "sevs @ evs"]) auto
  qed
qed

text \<open>
  The \<open>finally\<close> clause and the \<open>except\<close> clauses.
\<close>

lemma cleanup_events:
  "cleanup E body = body @ [SendPause, Disconnect] \<or>
   (send_pause_r E \<noteq> None \<and> cleanup E body = body @ [SendPause])"
  by (auto simp: cleanup_def send_pause_def disconnect_def raising_def split: option.splits)


lemma run_confirmed:
  assumes "confirmed E" and "prepare_r E = None"
  shows "run_safe_robot_test E =
           (case try_body E [Input, Prepare] of
              None \<Rightarrow> None
            | Some (r, body) \<Rightarrow> Some (handlers r, cleanup E body))"
  using assms
  by (auto simp: run_safe_robot_test_def confirmed_def input_def prepare_def raising_def
      split: sum.splits)

lemma run_cases:
  assumes "run_safe_robot_test E = Some (r, tr)"
  shows "tr = [Input] \<and> (r = Inr Cancelled \<or> (\<exists>e. r = Inl e)) \<or>
         tr = [Input, Prepare] \<and> (\<exists>e. r = Inl e) \<or>
         (\<exists>r0 body. try_body E [Input, Prepare] = Some (r0, body) \<and>
            r = handlers r0 \<and> tr = cleanup E body)"
  using assms
  by (auto simp: run_safe_robot_test_def input_def prepare_def raising_def
      split: sum.splits if_splits option.splits)

text \<open>
  The movements once the targets are known to have six elements.
\<close>

lemma movement_unfold:
  assumes "6 \<le> length tgt"
  shows "movement E tgt tr =
    (case send_r E (ncalls is_Send tr) of
       Some e \<Rightarrow> Some (Inl e, tr @ [Send (take 6 tgt)])
     | None \<Rightarrow>
        (case wait_for_move_completion E MOVEMENT_TIMEOUT (tr @ [Send (take 6 tgt)]) of
           None \<Rightarrow> None
         | Some (Inl e, tr2) \<Rightarrow> Some (Inl e, tr2)
         | Some (Inr False, tr2) \<Rightarrow> Some (Inr False, tr2)
         | Some (Inr True, tr2) \<Rightarrow>
            (case receive_r E (ncalls is_Receive tr2) of
               Inl e \<Rightarrow> Some (Inl e, tr2 @ [Receive])
             | Inr None \<Rightarrow> Some (Inl AttributeError, tr2 @ [Receive])
             | Inr (Some st) \<Rightarrow> Some (Inr True, tr2 @ [Receive]))))"
  using assms
  by (auto simp: movement_def send_target_def send_def receive_def raising_def
      split: option.splits sum.splits bool.splits)

lemma movement_True_iff:
  assumes "6 \<le> length tgt"
  shows "movement E tgt tr = Some (Inr True, tr') \<longleftrightarrow>
     send_r E (ncalls is_Send tr) = None \<and>
     (\<exists>tr2 st. wait_for_move_completion E MOVEMENT_TIMEOUT (tr @ [Send (take 6 tgt)]) =
          Some (Inr True, tr2) \<and>
        receive_r E (ncalls is_Receive tr2) = Inr (Some st) \<and> tr' = tr2 @ [Receive])"
  unfolding movement_unfold [OF assms]
  by (auto split: option.splits sum.splits bool.splits)

lemma test_movements_unfold:
  assumes "target_pos_1 cur = Inr tp1"
    and "fst (validate_joint_position exact_ops cur tp1 MAX_JOINT_MOVEMENT)"
    and "fst (validate_joint_position exact_ops tp1 cur MAX_JOINT_MOVEMENT)"
  shows "test_movements E cur tr =
      (case sleep_r E (ncalls is_Sleep tr) of
         Some e \<Rightarrow> Some (Inl e, tr @ [Sleep 2])
       | None \<Rightarrow>
          (case movement E tp1 (tr @ [Sleep 2]) of
             None \<Rightarrow> None
           | Some (Inl e, tr2) \<Rightarrow> Some (Inl e, tr2)
           | Some (Inr False, tr2) \<Rightarrow> Some (Inr Movement1Timeout, tr2)
           | Some (Inr True, tr2) \<Rightarrow>
              (case sleep_r E (ncalls is_Sleep tr2) of
                 Some e \<Rightarrow> Some (Inl e, tr2 @ [Sleep 1])
               | None \<Rightarrow>
                  (case movement E cur (tr2 @ [Sleep 1]) of
                     None \<Rightarrow> None
                   | Some (Inl e, tr4) \<Rightarrow> Some (Inl e, tr4)
                   | Some (Inr False, tr4) \<Rightarrow> Some (Inr Movement2Timeout, tr4)
                   | Some (Inr True, tr4) \<Rightarrow> Some (Inr Completed, tr4)))))"
  using assms
  by (auto simp: test_movements_def Let_def sleep_def raising_def
      split: prod.splits option.splits sum.splits bool.splits)

lemma test_movements_Completed_iff:
  assumes "target_pos_1 cur = Inr tp1"
    and "fst (validate_joint_position exact_ops cur tp1 MAX_JOINT_MOVEMENT)"
    and "fst (validate_joint_position exact_ops tp1 cur MAX_JOINT_MOVEMENT)"
  shows "test_movements E cur tr = Some (Inr Completed, tr') \<longleftrightarrow>
     sleep_r E (ncalls is_Sleep tr) = None \<and>
     (\<exists>tr2. movement E tp1 (tr @ [Sleep 2]) = Some (Inr True, tr2) \<and>
        sleep_r E (ncalls is_Sleep tr2) = None \<and>
        movement E cur (tr2 @ [Sleep 1]) = Some (Inr True, tr'))"
  unfolding test_movements_unfold [OF assms]
  by (auto split: option.splits sum.splits bool.splits)

lemma small_offset_validates:
  assumes "length cur = 6"
  shows "target_pos_1 cur = Inr (cur[5 := cur ! 5 + SMALL_MOVEMENT_OFFSET])"
    and "fst (validate_joint_position exact_ops cur (cur[5 := cur ! 5 + SMALL_MOVEMENT_OFFSET])
           MAX_JOINT_MOVEMENT)"
    and "fst (validate_joint_position exact_ops (cur[5 := cur ! 5 + SMALL_MOVEMENT_OFFSET]) cur
           MAX_JOINT_MOVEMENT)"
proof -
  let ?tp1 = "cur[5 := cur ! 5 + SMALL_MOVEMENT_OFFSET]"
  show "target_pos_1 cur = Inr ?tp1"
    using assms by (simp add: target_pos_1_def)
  have len: "length ?tp1 = 6" using assms by simp
  have d: "\<And>i. i < 6 \<Longrightarrow> \<bar>?tp1 ! i - cur ! i\<bar> \<le> MAX_JOINT_MOVEMENT"
    using assms
    by (simp add: nth_list_update MAX_JOINT_MOVEMENT_def SMALL_MOVEMENT_OFFSET_def)
  then have d': "\<And>i. i < 6 \<Longrightarrow> \<bar>cur ! i - ?tp1 ! i\<bar> \<le> MAX_JOINT_MOVEMENT"
    by (simp add: abs_minus_commute)
  show "fst (validate_joint_position exact_ops cur ?tp1 MAX_JOINT_MOVEMENT)"
    using validate_ok_iff [OF assms len] d by simp
  show "fst (validate_joint_position exact_ops ?tp1 cur MAX_JOINT_MOVEMENT)"
    using validate_ok_iff [OF len assms] d' by simp
qed




text \<open>
  Exactly when both targets are sent: the first movement completed and neither pause
  before a movement was interrupted.
\<close>

lemma test_movements_two_sends_iff:
  assumes "target_pos_1 cur = Inr tp1"
    and "fst (validate_joint_position exact_ops cur tp1 MAX_JOINT_MOVEMENT)"
    and "fst (validate_joint_position exact_ops tp1 cur MAX_JOINT_MOVEMENT)"
    and "test_movements E cur tr = Some (r, tr')"
  shows "filter is_Send tr' = filter is_Send tr @ [Send tp1, Send cur] \<longleftrightarrow>
     sleep_r E (ncalls is_Sleep tr) = None \<and>
     (\<exists>trm. movement E tp1 (tr @ [Sleep 2]) = Some (Inr True, trm) \<and>
        sleep_r E (ncalls is_Sleep trm) = None)"
proof -
  from validate_lengths [OF assms(2)] have len: "length cur = 6" "length tp1 = 6"
    by simp_all
  note unf = test_movements_unfold [OF assms(1-3), of E tr]
  show ?thesis
  proof (cases "sleep_r E (ncalls is_Sleep tr)")
    case (Some e)
    with assms(4) unf have "tr' = tr @ [Sleep 2]"
      by simp
    with Some show ?thesis by simp
  next
    case None
    note s1 = this
    obtain m1r m1tr where m1: "movement E tp1 (tr @ [Sleep 2]) = Some (m1r, m1tr)"
      using assms(4) unf s1 by (cases "movement E tp1 (tr @ [Sleep 2])") auto
    from movement_events [OF m1] len obtain evs1 where evs1: "m1tr = (tr @ [Sleep 2]) @ evs1"
      "filter is_Send evs1 = [Send tp1]"
      by auto
    have sends1: "filter is_Send m1tr = filter is_Send tr @ [Send tp1]"
      by (simp add: evs1)
    show ?thesis
    proof (cases "m1r = Inr True")
      case False
      then have "tr' = m1tr"
        using assms(4) unf s1 m1 by (auto split: sum.splits bool.splits)
      with sends1 False m1 show ?thesis by simp
    next
      case True
      note m1True = this
      show ?thesis
      proof (cases "sleep_r E (ncalls is_Sleep m1tr)")
        case (Some e)
        then have "tr' = m1tr @ [Sleep 1]"
          using assms(4) unf s1 m1 m1True by auto
        with sends1 Some m1 m1True show ?thesis by simp
      next
        case None
        note s2 = this
        obtain m2r m2tr where m2: "movement E cur (m1tr @ [Sleep 1]) = Some (m2r, m2tr)"
          using assms(4) unf s1 m1 m1True s2
          by (cases "movement E cur (m1tr @ [Sleep 1])") auto
        from movement_events [OF m2] len obtain evs2 where evs2:
          "m2tr = (m1tr @ [Sleep 1]) @ evs2" "filter is_Send evs2 = [Send cur]"
          by auto
        have "tr' = m2tr"
          using assms(4) unf s1 m1 m1True s2 m2 by (auto split: sum.splits bool.splits)
        then have "filter is_Send tr' = filter is_Send tr @ [Send tp1, Send cur]"
          by (simp add: evs2 sends1)
        with s1 s2 m1 m1True show ?thesis by simp
      qed
    qed
  qed
qed

section \<open>The orchestrated run\<close>

lemma filter_Send_cleanup: "filter is_Send (cleanup E body) = filter is_Send body"
  using cleanup_events [of E body] by auto

text \<open>
  Claim C4. Whenever a run sends a target to the robot, the first target has been
  validated against the position read at the start and the second against the first
  target, both before anything was sent: the targets sent are the first target, or the
  first and then the second. A run that ends with a failed validation has sent nothing.
\<close>

theorem targets_validated_before_dispatch:
  assumes "run_safe_robot_test E = Some (r, tr)"
  shows "(Send regs \<in> set tr \<longrightarrow>
           (\<exists>st tp1. receive_r E 0 = Inr (Some st) \<and> target_pos_1 (actual_q st) = Inr tp1 \<and>
              fst (validate_joint_position exact_ops (actual_q st) tp1 MAX_JOINT_MOVEMENT) \<and>
              fst (validate_joint_position exact_ops tp1 (actual_q st) MAX_JOINT_MOVEMENT) \<and>
              (regs = tp1 \<or> regs = actual_q st) \<and>
              (filter is_Send tr = [Send tp1] \<or>
               filter is_Send tr = [Send tp1, Send (actual_q st)])))
       \<and> ((\<exists>m. r = Inr (Validation1Failed m) \<or> r = Inr (Validation2Failed m)) \<longrightarrow>
            filter is_Send tr = [])"
proof -
  from run_cases [OF assms] consider
      (early) "tr = [Input] \<or> tr = [Input, Prepare]"
        "r = Inr Cancelled \<or> (\<exists>e. r = Inl e)"
    | (body) r0 body where "try_body E [Input, Prepare] = Some (r0, body)"
        "r = handlers r0" "tr = cleanup E body"
    by blast
  then show ?thesis
  proof cases
    case early
    then show ?thesis by auto
  next
    case body
    from try_body_events [OF body(1)] obtain evs where evs: "body = [Input, Prepare] @ evs"
      "filter is_Send evs = [] \<or>
        (\<exists>st tp1. receive_r E (ncalls is_Receive [Input, Prepare]) = Inr (Some st) \<and>
         target_pos_1 (actual_q st) = Inr tp1 \<and>
         fst (validate_joint_position exact_ops (actual_q st) tp1 MAX_JOINT_MOVEMENT) \<and>
         fst (validate_joint_position exact_ops tp1 (actual_q st) MAX_JOINT_MOVEMENT) \<and>
         (filter is_Send evs = [Send tp1] \<or>
          filter is_Send evs = [Send tp1, Send (actual_q st)]))"
      "\<forall>m. r0 = Inr (Validation1Failed m) \<or> r0 = Inr (Validation2Failed m) \<longrightarrow>
        filter is_Send evs = []"
      by blast
    have sends: "filter is_Send tr = filter is_Send evs"
      by (simp add: body(3) filter_Send_cleanup evs(1))
    have a: "Send regs \<in> set tr \<longrightarrow>
           (\<exists>st tp1. receive_r E 0 = Inr (Some st) \<and> target_pos_1 (actual_q st) = Inr tp1 \<and>
              fst (validate_joint_position exact_ops (actual_q st) tp1 MAX_JOINT_MOVEMENT) \<and>
              fst (validate_joint_position exact_ops tp1 (actual_q st) MAX_JOINT_MOVEMENT) \<and>
              (regs = tp1 \<or> regs = actual_q st) \<and>
              (filter is_Send tr = [Send tp1] \<or>
               filter is_Send tr = [Send tp1, Send (actual_q st)]))"
    proof
      assume "Send regs \<in> set tr"
      then have in_sends: "Send regs \<in> set (filter is_Send tr)"
        by simp
      from length_pos_if_in_set [OF this] have "filter is_Send evs \<noteq> []"
        unfolding sends by simp
      with evs(2) obtain st tp1 where st: "receive_r E 0 = Inr (Some st)"
        "target_pos_1 (actual_q st) = Inr tp1"
        "fst (validate_joint_position exact_ops (actual_q st) tp1 MAX_JOINT_MOVEMENT)"
        "fst (validate_joint_position exact_ops tp1 (actual_q st) MAX_JOINT_MOVEMENT)"
        "filter is_Send evs = [Send tp1] \<or> filter is_Send evs = [Send tp1, Send (actual_q st)]"
        by auto
      have m: "Send regs \<in> set (filter is_Send evs)"
        using in_sends unfolding sends .
      from st(5) have "regs = tp1 \<or> regs = actual_q st"
      proof
        assume e: "filter is_Send evs = [Send tp1]"
        from m have "Send regs \<in> set [Send tp1]" unfolding e .
        then show ?thesis by simp
      next
        assume e: "filter is_Send evs = [Send tp1, Send (actual_q st)]"
        from m have "Send regs \<in> set [Send tp1, Send (actual_q st)]" unfolding e .
        then show ?thesis by simp
      qed
      with st show "\<exists>st tp1. receive_r E 0 = Inr (Some st) \<and>
              target_pos_1 (actual_q st) = Inr tp1 \<and>
              fst (validate_joint_position exact_ops (actual_q st) tp1 MAX_JOINT_MOVEMENT) \<and>
              fst (validate_joint_position exact_ops tp1 (actual_q st) MAX_JOINT_MOVEMENT) \<and>
              (regs = tp1 \<or> regs = actual_q st) \<and>
              (filter is_Send tr = [Send tp1] \<or>
               filter is_Send tr = [Send tp1, Send (actual_q st)])"
        unfolding sends by blast
    qed
    have b: "(\<exists>m. r = Inr (Validation1Failed m) \<or> r = Inr (Validation2Failed m)) \<longrightarrow>
            filter is_Send tr = []"
    proof
      assume "\<exists>m. r = Inr (Validation1Failed m) \<or> r = Inr (Validation2Failed m)"
      then obtain m where m: "r = Inr (Validation1Failed m) \<or> r = Inr (Validation2Failed m)"
        by blast
      then have "r0 = Inr (Validation1Failed m) \<or> r0 = Inr (Validation2Failed m)"
        using body(2) by (auto simp: handlers_def split: sum.splits if_splits)
      with evs(3) show "filter is_Send tr = []"
        unfolding sends by blast
    qed
    from a b show ?thesis by blast
  qed
qed

text \<open>
  A run that completes both movements, and one whose telemetry has seven joints: its
  first validation fails and it sends nothing.
\<close>

theorem targets_validated_before_dispatch_witness:
  "run_safe_robot_test env_ok =
     Some (Inr Completed,
       [Input, Prepare, Connect, GetControllerVersion, SendOutputSetup, SendInputSetup,
        SendStart, Receive, Sleep 2, Send [0, - 157 / 100, 0, - 157 / 100, 0, 3 / 100],
        Time, Time, Receive, Receive, Sleep 1, Send [0, - 157 / 100, 0, - 157 / 100, 0, 0],
        Time, Time, Receive, Receive, SendPause, Disconnect]) \<and>
   (\<exists>st tp1. receive_r env_ok 0 = Inr (Some st) \<and> target_pos_1 (actual_q st) = Inr tp1 \<and>
      fst (validate_joint_position exact_ops (actual_q st) tp1 MAX_JOINT_MOVEMENT) \<and>
      fst (validate_joint_position exact_ops tp1 (actual_q st) MAX_JOINT_MOVEMENT) \<and>
      ([0, - 157 / 100, 0, - 157 / 100, 0, 0] = tp1 \<or>
       [0, - 157 / 100, 0, - 157 / 100, 0, 0] = actual_q st)) \<and>
   run_safe_robot_test env_seven_joints =
     Some (Inr (Validation1Failed Invalid_position_dimensions),
       [Input, Prepare, Connect, GetControllerVersion, SendOutputSetup, SendInputSetup,
        SendStart, Receive, SendPause, Disconnect]) \<and>
   filter is_Send [Input, Prepare, Connect, GetControllerVersion, SendOutputSetup,
        SendInputSetup, SendStart, Receive, SendPause, Disconnect] = []"
proof -
  let ?tr = "[Input, Prepare, Connect, GetControllerVersion, SendOutputSetup, SendInputSetup,
        SendStart, Receive, Sleep 2, Send [0, - 157 / 100, 0, - 157 / 100, 0, 3 / 100],
        Time, Time, Receive, Receive, Sleep 1, Send [0, - 157 / 100, 0, - 157 / 100, 0, 0],
        Time, Time, Receive, Receive, SendPause, Disconnect]"
  let ?tr7 = "[Input, Prepare, Connect, GetControllerVersion, SendOutputSetup,
        SendInputSetup, SendStart, Receive, SendPause, Disconnect]"
  have h1: "run_safe_robot_test env_ok = Some (Inr Completed, ?tr)"
    by code_simp
  have h2: "Send [0, - 157 / 100, 0, - 157 / 100, 0, 0] \<in> set ?tr"
    by simp
  have h3: "run_safe_robot_test env_seven_joints =
     Some (Inr (Validation1Failed Invalid_position_dimensions), ?tr7)"
    by code_simp
  have a: "\<exists>st tp1. receive_r env_ok 0 = Inr (Some st) \<and> target_pos_1 (actual_q st) = Inr tp1 \<and>
      fst (validate_joint_position exact_ops (actual_q st) tp1 MAX_JOINT_MOVEMENT) \<and>
      fst (validate_joint_position exact_ops tp1 (actual_q st) MAX_JOINT_MOVEMENT) \<and>
      ([0, - 157 / 100, 0, - 157 / 100, 0, 0] = tp1 \<or>
       [0, - 157 / 100, 0, - 157 / 100, 0, 0] = actual_q st)"
    using targets_validated_before_dispatch [OF h1, of "[0, - 157 / 100, 0, - 157 / 100, 0, 0]"] h2
    by blast
  have b: "filter is_Send ?tr7 = []"
    using targets_validated_before_dispatch [OF h3] by blast
  show ?thesis
    using h1 h3 a b by blast
qed

lemma run_at_movements:
  assumes "confirmed E" and "prepare_r E = None"
    and "session_setup E [Input, Prepare] = (Inr (Inr cur), tr0)"
  shows "run_safe_robot_test E =
           (case test_movements E cur tr0 of
              None \<Rightarrow> None
            | Some (r, body) \<Rightarrow> Some (handlers r, cleanup E body))"
  using assms(3) by (simp add: run_confirmed [OF assms(1,2)] try_body_def)

lemma run_Error_AttributeError:
  assumes "confirmed E" and "prepare_r E = None"
    and "session_setup E [Input, Prepare] = (Inr (Inr cur), tr0)"
    and "test_movements E cur tr0 = Some (Inl AttributeError, body)"
  shows "run_safe_robot_test E = Some (Inr (Error AttributeError), cleanup E body)"
  using assms(4) by (simp add: run_at_movements [OF assms(1-3)] handlers_def)

lemma movement_AttributeError:
  assumes "6 \<le> length tgt" and "send_r E (ncalls is_Send tr) = None"
    and "wait_for_move_completion E MOVEMENT_TIMEOUT (tr @ [Send (take 6 tgt)]) =
           Some (Inr True, tr2)"
    and "receive_r E (ncalls is_Receive tr2) = Inr None"
  shows "movement E tgt tr = Some (Inl AttributeError, tr2 @ [Receive])"
  using assms(2-4) by (simp add: movement_unfold [OF assms(1)])

text \<open>
  Claim C9. In a run that reaches the movements, when the wait of the first movement,
  or of the second, reports completion, the script calls \<open>receive\<close> once more; if that
  call yields no sample, reading \<open>actual_q\<close> raises \<open>AttributeError\<close>, the run ends in
  the handler of \<open>Exception\<close> and the clean-up follows. So a run that reports completion
  has received a sample at every \<open>receive\<close>, those after the waits included.
\<close>

theorem post_settlement_receive:
  assumes "confirmed E" and "prepare_r E = None"
    and "session_setup E [Input, Prepare] = (Inr (Inr cur), tr0)"
    and "length cur = 6"
    and "target_pos_1 cur = Inr tp1"
  shows "(sleep_r E (ncalls is_Sleep tr0) = None \<and>
          send_r E (ncalls is_Send (tr0 @ [Sleep 2])) = None \<and>
          wait_for_move_completion E MOVEMENT_TIMEOUT (tr0 @ [Sleep 2, Send tp1]) =
            Some (Inr True, tr1) \<and>
          receive_r E (ncalls is_Receive tr1) = Inr None \<longrightarrow>
            run_safe_robot_test E =
              Some (Inr (Error AttributeError), cleanup E (tr1 @ [Receive])))
       \<and> (sleep_r E (ncalls is_Sleep tr0) = None \<and>
          movement E tp1 (tr0 @ [Sleep 2]) = Some (Inr True, trm) \<and>
          sleep_r E (ncalls is_Sleep trm) = None \<and>
          send_r E (ncalls is_Send (trm @ [Sleep 1])) = None \<and>
          wait_for_move_completion E MOVEMENT_TIMEOUT (trm @ [Sleep 1, Send cur]) =
            Some (Inr True, tr2) \<and>
          receive_r E (ncalls is_Receive tr2) = Inr None \<longrightarrow>
            run_safe_robot_test E =
              Some (Inr (Error AttributeError), cleanup E (tr2 @ [Receive])))
       \<and> (run_safe_robot_test E = Some (Inr Completed, tr') \<longrightarrow> all_received E tr')"
proof -
  note val = small_offset_validates [OF assms(4)]
  have tp1: "tp1 = cur[5 := cur ! 5 + SMALL_MOVEMENT_OFFSET]"
    using assms(5) val(1) by simp
  have len: "6 \<le> length tp1" "6 \<le> length cur" "take 6 tp1 = tp1" "take 6 cur = cur"
    using assms(4) by (simp_all add: tp1)
  note unf = test_movements_unfold [OF assms(5) val(2,3) [folded tp1]]
  have A: "sleep_r E (ncalls is_Sleep tr0) = None \<and>
          send_r E (ncalls is_Send (tr0 @ [Sleep 2])) = None \<and>
          wait_for_move_completion E MOVEMENT_TIMEOUT (tr0 @ [Sleep 2, Send tp1]) =
            Some (Inr True, tr1) \<and>
          receive_r E (ncalls is_Receive tr1) = Inr None \<longrightarrow>
            run_safe_robot_test E =
              Some (Inr (Error AttributeError), cleanup E (tr1 @ [Receive]))"
  proof
    assume a: "sleep_r E (ncalls is_Sleep tr0) = None \<and>
          send_r E (ncalls is_Send (tr0 @ [Sleep 2])) = None \<and>
          wait_for_move_completion E MOVEMENT_TIMEOUT (tr0 @ [Sleep 2, Send tp1]) =
            Some (Inr True, tr1) \<and>
          receive_r E (ncalls is_Receive tr1) = Inr None"
    then have w: "wait_for_move_completion E MOVEMENT_TIMEOUT
        ((tr0 @ [Sleep 2]) @ [Send (take 6 tp1)]) = Some (Inr True, tr1)"
      by (simp add: len)
    have "movement E tp1 (tr0 @ [Sleep 2]) = Some (Inl AttributeError, tr1 @ [Receive])"
      using a by (intro movement_AttributeError [OF len(1) _ w]) simp_all
    with a have "test_movements E cur tr0 = Some (Inl AttributeError, tr1 @ [Receive])"
      by (simp add: unf)
    then show "run_safe_robot_test E =
        Some (Inr (Error AttributeError), cleanup E (tr1 @ [Receive]))"
      by (rule run_Error_AttributeError [OF assms(1-3)])
  qed
  have B: "sleep_r E (ncalls is_Sleep tr0) = None \<and>
          movement E tp1 (tr0 @ [Sleep 2]) = Some (Inr True, trm) \<and>
          sleep_r E (ncalls is_Sleep trm) = None \<and>
          send_r E (ncalls is_Send (trm @ [Sleep 1])) = None \<and>
          wait_for_move_completion E MOVEMENT_TIMEOUT (trm @ [Sleep 1, Send cur]) =
            Some (Inr True, tr2) \<and>
          receive_r E (ncalls is_Receive tr2) = Inr None \<longrightarrow>
            run_safe_robot_test E =
              Some (Inr (Error AttributeError), cleanup E (tr2 @ [Receive]))"
  proof
    assume a: "sleep_r E (ncalls is_Sleep tr0) = None \<and>
          movement E tp1 (tr0 @ [Sleep 2]) = Some (Inr True, trm) \<and>
          sleep_r E (ncalls is_Sleep trm) = None \<and>
          send_r E (ncalls is_Send (trm @ [Sleep 1])) = None \<and>
          wait_for_move_completion E MOVEMENT_TIMEOUT (trm @ [Sleep 1, Send cur]) =
            Some (Inr True, tr2) \<and>
          receive_r E (ncalls is_Receive tr2) = Inr None"
    then have w: "wait_for_move_completion E MOVEMENT_TIMEOUT
        ((trm @ [Sleep 1]) @ [Send (take 6 cur)]) = Some (Inr True, tr2)"
      by (simp add: len)
    have "movement E cur (trm @ [Sleep 1]) = Some (Inl AttributeError, tr2 @ [Receive])"
      using a by (intro movement_AttributeError [OF len(2) _ w]) simp_all
    with a have "test_movements E cur tr0 = Some (Inl AttributeError, tr2 @ [Receive])"
      by (simp add: unf)
    then show "run_safe_robot_test E =
        Some (Inr (Error AttributeError), cleanup E (tr2 @ [Receive]))"
      by (rule run_Error_AttributeError [OF assms(1-3)])
  qed
  have C: "run_safe_robot_test E = Some (Inr Completed, tr') \<longrightarrow> all_received E tr'"
  proof
    assume c: "run_safe_robot_test E = Some (Inr Completed, tr')"
    from run_cases [OF c] obtain r0 body where b: "try_body E [Input, Prepare] = Some (r0, body)"
      "Inr Completed = handlers r0" "tr' = cleanup E body"
      by auto
    from b(2) have r0: "r0 = Inr Completed"
      by (auto simp: handlers_def split: sum.splits if_splits)
    from try_body_events [OF b(1)] r0 have "all_received E [Input, Prepare] \<longrightarrow> all_received E body"
      by blast
    moreover have "all_received E [Input, Prepare]"
      by (simp add: all_received_def)
    moreover have "ncalls is_Receive tr' = ncalls is_Receive body"
      using cleanup_events [of E body] b(3) by auto
    from all_received_count [OF this, of E] have "all_received E tr' = all_received E body" .
    ultimately show "all_received E tr'"
      by simp
  qed
  show ?thesis
    by (rule conjI [OF A conjI [OF B C]])
qed

text \<open>
  The \<open>receive\<close> after the first wait, and in a second environment the one after the
  second wait, yields nothing: both runs end with \<open>AttributeError\<close> and clean up. In the
  run that completes, every \<open>receive\<close> yielded a sample.
\<close>

theorem post_settlement_receive_witness:
  "run_safe_robot_test env_lost_after_settling =
     Some (Inr (Error AttributeError),
       [Input, Prepare, Connect, GetControllerVersion, SendOutputSetup, SendInputSetup,
        SendStart, Receive, Sleep 2, Send [0, - 157 / 100, 0, - 157 / 100, 0, 3 / 100],
        Time, Time, Receive, Receive, SendPause, Disconnect]) \<and>
   run_safe_robot_test env_lost_after_return =
     Some (Inr (Error AttributeError),
       [Input, Prepare, Connect, GetControllerVersion, SendOutputSetup, SendInputSetup,
        SendStart, Receive, Sleep 2, Send [0, - 157 / 100, 0, - 157 / 100, 0, 3 / 100],
        Time, Time, Receive, Receive, Sleep 1, Send [0, - 157 / 100, 0, - 157 / 100, 0, 0],
        Time, Time, Receive, Receive, SendPause, Disconnect]) \<and>
   all_received env_ok
     [Input, Prepare, Connect, GetControllerVersion, SendOutputSetup, SendInputSetup,
      SendStart, Receive, Sleep 2, Send [0, - 157 / 100, 0, - 157 / 100, 0, 3 / 100],
      Time, Time, Receive, Receive, Sleep 1, Send [0, - 157 / 100, 0, - 157 / 100, 0, 0],
      Time, Time, Receive, Receive, SendPause, Disconnect]"
proof -
  let ?A = "env_lost_after_settling"
  let ?B = "env_lost_after_return"
  let ?cur = "[0, - 157 / 100, 0, - 157 / 100, 0, 0 :: real]"
  let ?tp1 = "[0, - 157 / 100, 0, - 157 / 100, 0, 3 / 100 :: real]"
  let ?tr0 = "[Input, Prepare, Connect, GetControllerVersion, SendOutputSetup, SendInputSetup,
       SendStart, Receive]"
  let ?tr1 = "?tr0 @ [Sleep 2, Send ?tp1, Time, Time, Receive]"
  let ?trm = "?tr1 @ [Receive]"
  let ?tr2 = "?trm @ [Sleep 1, Send ?cur, Time, Time, Receive]"
  have len: "length ?cur = 6"
    by simp
  have tp1: "target_pos_1 ?cur = Inr ?tp1"
    by (simp add: target_pos_1_def SMALL_MOVEMENT_OFFSET_def)
  have a1: "confirmed ?A" and a2: "prepare_r ?A = None"
    and a3: "session_setup ?A [Input, Prepare] = (Inr (Inr ?cur), ?tr0)"
    by code_simp+
  have a4: "sleep_r ?A (ncalls is_Sleep ?tr0) = None \<and>
          send_r ?A (ncalls is_Send (?tr0 @ [Sleep 2])) = None \<and>
          wait_for_move_completion ?A MOVEMENT_TIMEOUT (?tr0 @ [Sleep 2, Send ?tp1]) =
            Some (Inr True, ?tr1) \<and>
          receive_r ?A (ncalls is_Receive ?tr1) = Inr None"
    by code_simp
  have "run_safe_robot_test ?A =
      Some (Inr (Error AttributeError), cleanup ?A (?tr1 @ [Receive]))"
    using post_settlement_receive [OF a1 a2 a3 len tp1] a4 by blast
  moreover have "cleanup ?A (?tr1 @ [Receive]) = ?tr1 @ [Receive, SendPause, Disconnect]"
    by code_simp
  ultimately have A: "run_safe_robot_test ?A =
      Some (Inr (Error AttributeError), ?tr1 @ [Receive, SendPause, Disconnect])"
    by simp
  have b1: "confirmed ?B" and b2: "prepare_r ?B = None"
    and b3: "session_setup ?B [Input, Prepare] = (Inr (Inr ?cur), ?tr0)"
    by code_simp+
  have b4: "sleep_r ?B (ncalls is_Sleep ?tr0) = None \<and>
          movement ?B ?tp1 (?tr0 @ [Sleep 2]) = Some (Inr True, ?trm) \<and>
          sleep_r ?B (ncalls is_Sleep ?trm) = None \<and>
          send_r ?B (ncalls is_Send (?trm @ [Sleep 1])) = None \<and>
          wait_for_move_completion ?B MOVEMENT_TIMEOUT (?trm @ [Sleep 1, Send ?cur]) =
            Some (Inr True, ?tr2) \<and>
          receive_r ?B (ncalls is_Receive ?tr2) = Inr None"
    by code_simp
  have "run_safe_robot_test ?B =
      Some (Inr (Error AttributeError), cleanup ?B (?tr2 @ [Receive]))"
    using post_settlement_receive [OF b1 b2 b3 len tp1] b4 by blast
  moreover have "cleanup ?B (?tr2 @ [Receive]) = ?tr2 @ [Receive, SendPause, Disconnect]"
    by code_simp
  ultimately have B: "run_safe_robot_test ?B =
      Some (Inr (Error AttributeError), ?tr2 @ [Receive, SendPause, Disconnect])"
    by simp
  have c1: "confirmed env_ok" and c2: "prepare_r env_ok = None"
    and c3: "session_setup env_ok [Input, Prepare] = (Inr (Inr ?cur), ?tr0)"
    and c4: "run_safe_robot_test env_ok =
      Some (Inr Completed, ?tr2 @ [Receive, SendPause, Disconnect])"
    by code_simp+
  have C: "all_received env_ok (?tr2 @ [Receive, SendPause, Disconnect])"
    using post_settlement_receive [OF c1 c2 c3 len tp1] c4 by blast
  show ?thesis
    using A B C by simp
qed

lemma handlers_Completed: "handlers r0 = Inr Completed \<longleftrightarrow> r0 = Inr Completed"
  by (auto simp: handlers_def split: sum.splits if_splits)

text \<open>
  Claim C7, as amended. In a run that reaches the movements with a six-element position,
  both targets validate. The sends of the run are, in order, none, the outbound target
  alone, or the outbound target and then the return target. There are exactly these two
  sends, in this order, precisely when neither the pause before the first movement nor
  the first send raises, the wait for the first movement reports completion, the
  \<open>receive\<close> after it yields a sample and the pause between the movements is not
  interrupted: so the return target is never sent before the outbound movement has
  settled, and a run that reports completion has made exactly the two sends. The run
  reports completion if and only if no sleep or send raises, both waits report
  completion, and the \<open>receive\<close> after each wait yields a sample.
\<close>

theorem two_sends_in_order:
  assumes "confirmed E" and "prepare_r E = None"
    and "session_setup E [Input, Prepare] = (Inr (Inr cur), tr0)"
    and "length cur = 6"
    and "target_pos_1 cur = Inr tp1"
  shows "fst (validate_joint_position exact_ops cur tp1 MAX_JOINT_MOVEMENT) \<and>
         fst (validate_joint_position exact_ops tp1 cur MAX_JOINT_MOVEMENT)
       \<and> (run_safe_robot_test E = Some (r, tr) \<longrightarrow>
            filter is_Send tr = [] \<or> filter is_Send tr = [Send tp1] \<or>
            filter is_Send tr = [Send tp1, Send cur])
       \<and> (run_safe_robot_test E = Some (r, tr) \<longrightarrow>
            (filter is_Send tr = [Send tp1, Send cur] \<longleftrightarrow>
               sleep_r E (ncalls is_Sleep tr0) = None \<and> send_r E (ncalls is_Send tr0) = None \<and>
               (\<exists>tr1 st1.
                  wait_for_move_completion E MOVEMENT_TIMEOUT (tr0 @ [Sleep 2, Send tp1]) =
                    Some (Inr True, tr1) \<and>
                  receive_r E (ncalls is_Receive tr1) = Inr (Some st1) \<and>
                  sleep_r E (ncalls is_Sleep tr1) = None)))
       \<and> (run_safe_robot_test E = Some (Inr Completed, tr) \<longrightarrow>
            filter is_Send tr = [Send tp1, Send cur])
       \<and> ((\<exists>tr. run_safe_robot_test E = Some (Inr Completed, tr)) \<longleftrightarrow>
            sleep_r E (ncalls is_Sleep tr0) = None \<and> send_r E (ncalls is_Send tr0) = None \<and>
            (\<exists>tr1 st1 tr2 st2.
               wait_for_move_completion E MOVEMENT_TIMEOUT (tr0 @ [Sleep 2, Send tp1]) =
                 Some (Inr True, tr1) \<and>
               receive_r E (ncalls is_Receive tr1) = Inr (Some st1) \<and>
               sleep_r E (ncalls is_Sleep tr1) = None \<and>
               send_r E (ncalls is_Send tr1) = None \<and>
               wait_for_move_completion E MOVEMENT_TIMEOUT (tr1 @ [Receive, Sleep 1, Send cur]) =
                 Some (Inr True, tr2) \<and>
               receive_r E (ncalls is_Receive tr2) = Inr (Some st2)))"
proof -
  note val0 = small_offset_validates [OF assms(4)]
  have tp1: "tp1 = cur[5 := cur ! 5 + SMALL_MOVEMENT_OFFSET]"
    using assms(5) val0(1) by simp
  note val = val0(2,3) [folded tp1]
  have len: "6 \<le> length tp1" "6 \<le> length cur" "take 6 tp1 = tp1" "take 6 cur = cur"
    using assms(4) by (simp_all add: tp1)
  note run = run_at_movements [OF assms(1-3)]
  from session_setup_events [OF assms(3)] obtain sevs where sevs: "tr0 = [Input, Prepare] @ sevs"
    "\<forall>e\<in>set sevs. quiet e"
    by blast
  then have tr0_sends: "filter is_Send tr0 = []"
    by (auto simp: quiet_def filter_empty_conv)
  have body: "\<exists>r0 b. test_movements E cur tr0 = Some (r0, b) \<and> r = handlers r0 \<and>
        filter is_Send tr = filter is_Send b"
    if "run_safe_robot_test E = Some (r, tr)" for r tr
  proof -
    from that obtain r0 b where b: "test_movements E cur tr0 = Some (r0, b)"
      "r = handlers r0" "tr = cleanup E b"
      unfolding run by (auto split: option.splits)
    have "filter is_Send tr = filter is_Send b"
      using cleanup_events [of E b] b(3) by auto
    with b show ?thesis by blast
  qed
  have B: "run_safe_robot_test E = Some (r, tr) \<longrightarrow>
            filter is_Send tr = [] \<or> filter is_Send tr = [Send tp1] \<or>
            filter is_Send tr = [Send tp1, Send cur]"
  proof
    assume "run_safe_robot_test E = Some (r, tr)"
    from body [OF this] obtain r0 b where b: "test_movements E cur tr0 = Some (r0, b)"
      "filter is_Send tr = filter is_Send b"
      by blast
    from test_movements_events [OF b(1)] assms(5) obtain evs where evs: "b = tr0 @ evs"
      "filter is_Send evs = [] \<or> filter is_Send evs = [Send tp1] \<or>
         filter is_Send evs = [Send tp1, Send cur]"
      by auto
    then show "filter is_Send tr = [] \<or> filter is_Send tr = [Send tp1] \<or>
            filter is_Send tr = [Send tp1, Send cur]"
      using b(2) tr0_sends by simp
  qed
  have C: "run_safe_robot_test E = Some (r, tr) \<longrightarrow>
            (filter is_Send tr = [Send tp1, Send cur] \<longleftrightarrow>
               sleep_r E (ncalls is_Sleep tr0) = None \<and> send_r E (ncalls is_Send tr0) = None \<and>
               (\<exists>tr1 st1.
                  wait_for_move_completion E MOVEMENT_TIMEOUT (tr0 @ [Sleep 2, Send tp1]) =
                    Some (Inr True, tr1) \<and>
                  receive_r E (ncalls is_Receive tr1) = Inr (Some st1) \<and>
                  sleep_r E (ncalls is_Sleep tr1) = None))"
  proof
    assume "run_safe_robot_test E = Some (r, tr)"
    from body [OF this] obtain r0 b where b: "test_movements E cur tr0 = Some (r0, b)"
      "filter is_Send tr = filter is_Send b"
      by blast
    have "filter is_Send tr = [Send tp1, Send cur] \<longleftrightarrow>
        sleep_r E (ncalls is_Sleep tr0) = None \<and>
        (\<exists>trm. movement E tp1 (tr0 @ [Sleep 2]) = Some (Inr True, trm) \<and>
           sleep_r E (ncalls is_Sleep trm) = None)"
      using test_movements_two_sends_iff [OF assms(5) val b(1)] b(2) tr0_sends by simp
    also have "(\<exists>trm. movement E tp1 (tr0 @ [Sleep 2]) = Some (Inr True, trm) \<and>
           sleep_r E (ncalls is_Sleep trm) = None) \<longleftrightarrow>
        send_r E (ncalls is_Send tr0) = None \<and>
        (\<exists>tr1 st1.
            wait_for_move_completion E MOVEMENT_TIMEOUT (tr0 @ [Sleep 2, Send tp1]) =
              Some (Inr True, tr1) \<and>
            receive_r E (ncalls is_Receive tr1) = Inr (Some st1) \<and>
            sleep_r E (ncalls is_Sleep tr1) = None)"
      unfolding movement_True_iff [OF len(1)] by (auto simp: len)
    finally show "filter is_Send tr = [Send tp1, Send cur] \<longleftrightarrow>
               sleep_r E (ncalls is_Sleep tr0) = None \<and> send_r E (ncalls is_Send tr0) = None \<and>
               (\<exists>tr1 st1.
                  wait_for_move_completion E MOVEMENT_TIMEOUT (tr0 @ [Sleep 2, Send tp1]) =
                    Some (Inr True, tr1) \<and>
                  receive_r E (ncalls is_Receive tr1) = Inr (Some st1) \<and>
                  sleep_r E (ncalls is_Sleep tr1) = None)"
      by simp
  qed
  have E: "run_safe_robot_test E = Some (Inr Completed, tr) \<longrightarrow>
            filter is_Send tr = [Send tp1, Send cur]"
  proof
    assume "run_safe_robot_test E = Some (Inr Completed, tr)"
    from body [OF this] obtain r0 b where b: "test_movements E cur tr0 = Some (r0, b)"
      "Inr Completed = handlers r0" "filter is_Send tr = filter is_Send b"
      by blast
    from b(2) have r0: "r0 = Inr Completed"
      using handlers_Completed [of r0] by simp
    from test_movements_events [OF b(1)] assms(5) r0 obtain evs where evs: "b = tr0 @ evs"
      "filter is_Send evs = [Send tp1, Send cur]"
      by auto
    then show "filter is_Send tr = [Send tp1, Send cur]"
      using b(3) tr0_sends by simp
  qed
  have "(\<exists>tr. run_safe_robot_test E = Some (Inr Completed, tr)) \<longleftrightarrow>
        (\<exists>b. test_movements E cur tr0 = Some (Inr Completed, b))"
    unfolding run by (auto simp: handlers_Completed split: option.splits)
  also have "\<dots> \<longleftrightarrow>
            sleep_r E (ncalls is_Sleep tr0) = None \<and> send_r E (ncalls is_Send tr0) = None \<and>
            (\<exists>tr1 st1 tr2 st2.
               wait_for_move_completion E MOVEMENT_TIMEOUT (tr0 @ [Sleep 2, Send tp1]) =
                 Some (Inr True, tr1) \<and>
               receive_r E (ncalls is_Receive tr1) = Inr (Some st1) \<and>
               sleep_r E (ncalls is_Sleep tr1) = None \<and>
               send_r E (ncalls is_Send tr1) = None \<and>
               wait_for_move_completion E MOVEMENT_TIMEOUT (tr1 @ [Receive, Sleep 1, Send cur]) =
                 Some (Inr True, tr2) \<and>
               receive_r E (ncalls is_Receive tr2) = Inr (Some st2))"
  proof (intro iffI)
    assume "\<exists>b. test_movements E cur tr0 = Some (Inr Completed, b)"
    then obtain b trm where s1: "sleep_r E (ncalls is_Sleep tr0) = None"
      and m1: "movement E tp1 (tr0 @ [Sleep 2]) = Some (Inr True, trm)"
      and s2: "sleep_r E (ncalls is_Sleep trm) = None"
      and m2: "movement E cur (trm @ [Sleep 1]) = Some (Inr True, b)"
      unfolding test_movements_Completed_iff [OF assms(5) val] by blast
    from m1 obtain tr1 st1 where w1: "send_r E (ncalls is_Send (tr0 @ [Sleep 2])) = None"
      "wait_for_move_completion E MOVEMENT_TIMEOUT ((tr0 @ [Sleep 2]) @ [Send (take 6 tp1)]) =
         Some (Inr True, tr1)"
      "receive_r E (ncalls is_Receive tr1) = Inr (Some st1)" "trm = tr1 @ [Receive]"
      unfolding movement_True_iff [OF len(1)] by blast
    from m2 obtain tr2 st2 where w2: "send_r E (ncalls is_Send (trm @ [Sleep 1])) = None"
      "wait_for_move_completion E MOVEMENT_TIMEOUT ((trm @ [Sleep 1]) @ [Send (take 6 cur)]) =
         Some (Inr True, tr2)"
      "receive_r E (ncalls is_Receive tr2) = Inr (Some st2)"
      unfolding movement_True_iff [OF len(2)] by blast
    have "wait_for_move_completion E MOVEMENT_TIMEOUT (tr0 @ [Sleep 2, Send tp1]) =
                 Some (Inr True, tr1)"
      using w1(2) by (simp add: len)
    moreover have "wait_for_move_completion E MOVEMENT_TIMEOUT
        (tr1 @ [Receive, Sleep 1, Send cur]) = Some (Inr True, tr2)"
      using w2(2) by (simp add: len w1(4))
    moreover have "send_r E (ncalls is_Send tr0) = None" "sleep_r E (ncalls is_Sleep tr1) = None"
      "send_r E (ncalls is_Send tr1) = None"
      using w1(1) s2 w2(1) by (simp_all add: w1(4))
    ultimately show "sleep_r E (ncalls is_Sleep tr0) = None \<and>
            send_r E (ncalls is_Send tr0) = None \<and>
            (\<exists>tr1 st1 tr2 st2.
               wait_for_move_completion E MOVEMENT_TIMEOUT (tr0 @ [Sleep 2, Send tp1]) =
                 Some (Inr True, tr1) \<and>
               receive_r E (ncalls is_Receive tr1) = Inr (Some st1) \<and>
               sleep_r E (ncalls is_Sleep tr1) = None \<and>
               send_r E (ncalls is_Send tr1) = None \<and>
               wait_for_move_completion E MOVEMENT_TIMEOUT (tr1 @ [Receive, Sleep 1, Send cur]) =
                 Some (Inr True, tr2) \<and>
               receive_r E (ncalls is_Receive tr2) = Inr (Some st2))"
      using s1 w1(3) w2(3) by blast
  next
    assume "sleep_r E (ncalls is_Sleep tr0) = None \<and>
            send_r E (ncalls is_Send tr0) = None \<and>
            (\<exists>tr1 st1 tr2 st2.
               wait_for_move_completion E MOVEMENT_TIMEOUT (tr0 @ [Sleep 2, Send tp1]) =
                 Some (Inr True, tr1) \<and>
               receive_r E (ncalls is_Receive tr1) = Inr (Some st1) \<and>
               sleep_r E (ncalls is_Sleep tr1) = None \<and>
               send_r E (ncalls is_Send tr1) = None \<and>
               wait_for_move_completion E MOVEMENT_TIMEOUT (tr1 @ [Receive, Sleep 1, Send cur]) =
                 Some (Inr True, tr2) \<and>
               receive_r E (ncalls is_Receive tr2) = Inr (Some st2))"
    then obtain tr1 st1 tr2 st2 where s1: "sleep_r E (ncalls is_Sleep tr0) = None"
      and d1: "send_r E (ncalls is_Send tr0) = None"
      and w1: "wait_for_move_completion E MOVEMENT_TIMEOUT (tr0 @ [Sleep 2, Send tp1]) =
                 Some (Inr True, tr1)"
      and r1: "receive_r E (ncalls is_Receive tr1) = Inr (Some st1)"
      and s2: "sleep_r E (ncalls is_Sleep tr1) = None"
      and d2: "send_r E (ncalls is_Send tr1) = None"
      and w2: "wait_for_move_completion E MOVEMENT_TIMEOUT (tr1 @ [Receive, Sleep 1, Send cur]) =
                 Some (Inr True, tr2)"
      and r2: "receive_r E (ncalls is_Receive tr2) = Inr (Some st2)"
      by blast
    have m1: "movement E tp1 (tr0 @ [Sleep 2]) = Some (Inr True, tr1 @ [Receive])"
      unfolding movement_True_iff [OF len(1)] using d1 w1 r1 by (simp add: len)
    have m2: "movement E cur ((tr1 @ [Receive]) @ [Sleep 1]) = Some (Inr True, tr2 @ [Receive])"
      unfolding movement_True_iff [OF len(2)] using d2 w2 r2 by (simp add: len)
    have "test_movements E cur tr0 = Some (Inr Completed, tr2 @ [Receive])"
      unfolding test_movements_Completed_iff [OF assms(5) val]
      using s1 m1 s2 m2 by simp
    then show "\<exists>b. test_movements E cur tr0 = Some (Inr Completed, b)" ..
  qed
  finally have D: "(\<exists>tr. run_safe_robot_test E = Some (Inr Completed, tr)) \<longleftrightarrow>
            sleep_r E (ncalls is_Sleep tr0) = None \<and> send_r E (ncalls is_Send tr0) = None \<and>
            (\<exists>tr1 st1 tr2 st2.
               wait_for_move_completion E MOVEMENT_TIMEOUT (tr0 @ [Sleep 2, Send tp1]) =
                 Some (Inr True, tr1) \<and>
               receive_r E (ncalls is_Receive tr1) = Inr (Some st1) \<and>
               sleep_r E (ncalls is_Sleep tr1) = None \<and>
               send_r E (ncalls is_Send tr1) = None \<and>
               wait_for_move_completion E MOVEMENT_TIMEOUT (tr1 @ [Receive, Sleep 1, Send cur]) =
                 Some (Inr True, tr2) \<and>
               receive_r E (ncalls is_Receive tr2) = Inr (Some st2))" .
  show ?thesis
    by (rule conjI [OF val(1) conjI [OF val(2) conjI [OF B conjI [OF C conjI [OF E D]]]]])
qed

text \<open>
  The robot at rest at \<open>[0, -1.57, 0, -1.57, 0, 0]\<close>: both targets validate, two
  targets are sent in order and the run reports completion.
\<close>

theorem two_sends_in_order_witness:
  "confirmed env_ok \<and> prepare_r env_ok = None \<and>
   session_setup env_ok [Input, Prepare] =
     (Inr (Inr [0, - 157 / 100, 0, - 157 / 100, 0, 0]),
      [Input, Prepare, Connect, GetControllerVersion, SendOutputSetup, SendInputSetup,
       SendStart, Receive]) \<and>
   fst (validate_joint_position exact_ops [0, - 157 / 100, 0, - 157 / 100, 0, 0]
          [0, - 157 / 100, 0, - 157 / 100, 0, 3 / 100] MAX_JOINT_MOVEMENT) \<and>
   fst (validate_joint_position exact_ops [0, - 157 / 100, 0, - 157 / 100, 0, 3 / 100]
          [0, - 157 / 100, 0, - 157 / 100, 0, 0] MAX_JOINT_MOVEMENT) \<and>
   (\<exists>tr. run_safe_robot_test env_ok = Some (Inr Completed, tr) \<and>
      filter is_Send tr = [Send [0, - 157 / 100, 0, - 157 / 100, 0, 3 / 100],
                           Send [0, - 157 / 100, 0, - 157 / 100, 0, 0]])"
proof -
  let ?cur = "[0, - 157 / 100, 0, - 157 / 100, 0, 0 :: real]"
  let ?tp1 = "[0, - 157 / 100, 0, - 157 / 100, 0, 3 / 100 :: real]"
  let ?tr0 = "[Input, Prepare, Connect, GetControllerVersion, SendOutputSetup, SendInputSetup,
       SendStart, Receive]"
  let ?tr1 = "?tr0 @ [Sleep 2, Send ?tp1, Time, Time, Receive]"
  let ?tr2 = "?tr1 @ [Receive, Sleep 1, Send ?cur, Time, Time, Receive]"
  have h1: "confirmed env_ok"
    by code_simp
  have h2: "prepare_r env_ok = None"
    by (simp add: env_ok_def)
  have h3: "session_setup env_ok [Input, Prepare] = (Inr (Inr ?cur), ?tr0)"
    by code_simp
  have h4: "length ?cur = 6"
    by simp
  have h5: "target_pos_1 ?cur = Inr ?tp1"
    by (simp add: target_pos_1_def SMALL_MOVEMENT_OFFSET_def)
  note main = two_sends_in_order [OF h1 h2 h3 h4 h5]
  have rhs: "sleep_r env_ok (ncalls is_Sleep ?tr0) = None \<and>
      send_r env_ok (ncalls is_Send ?tr0) = None \<and>
      wait_for_move_completion env_ok MOVEMENT_TIMEOUT (?tr0 @ [Sleep 2, Send ?tp1]) =
        Some (Inr True, ?tr1) \<and>
      receive_r env_ok (ncalls is_Receive ?tr1) = Inr (Some still) \<and>
      sleep_r env_ok (ncalls is_Sleep ?tr1) = None \<and>
      send_r env_ok (ncalls is_Send ?tr1) = None \<and>
      wait_for_move_completion env_ok MOVEMENT_TIMEOUT (?tr1 @ [Receive, Sleep 1, Send ?cur]) =
        Some (Inr True, ?tr2) \<and>
      receive_r env_ok (ncalls is_Receive ?tr2) = Inr (Some still)"
    by code_simp
  have "\<exists>tr. run_safe_robot_test env_ok = Some (Inr Completed, tr)"
    using main rhs by blast
  then obtain tr where tr: "run_safe_robot_test env_ok = Some (Inr Completed, tr)" ..
  have "filter is_Send tr = [] \<or> filter is_Send tr = [Send ?tp1] \<or>
      filter is_Send tr = [Send ?tp1, Send ?cur]"
    using two_sends_in_order [OF h1 h2 h3 h4 h5, of "Inr Completed" tr] tr by blast
  moreover have "run_safe_robot_test env_ok =
     Some (Inr Completed, ?tr2 @ [Receive, SendPause, Disconnect])"
    by code_simp
  ultimately have "filter is_Send tr = [Send ?tp1, Send ?cur]"
    using tr by auto
  with tr main h1 h2 h3 show ?thesis
    by blast
qed

text \<open>
  Claim C7 as stated fails, in both halves. In the first run both targets validate and
  the first movement times out: one target is sent, not two. In the second run both
  targets validate and both waits report completion before the timeout, yet the run
  does not report completion, because the \<open>receive\<close> after the second wait yields no
  sample.
\<close>

theorem settled_twice_without_success:
  "run_safe_robot_test env_too_slow =
     Some (Inr Movement1Timeout,
       [Input, Prepare, Connect, GetControllerVersion, SendOutputSetup, SendInputSetup,
        SendStart, Receive, Sleep 2, Send [0, - 157 / 100, 0, - 157 / 100, 0, 1 / 25],
        Time, Time, SendPause, Disconnect]) \<and>
   fst (validate_joint_position exact_ops [0, - 157 / 100, 0, - 157 / 100, 0, 1 / 100]
          [0, - 157 / 100, 0, - 157 / 100, 0, 1 / 25] MAX_JOINT_MOVEMENT) \<and>
   fst (validate_joint_position exact_ops [0, - 157 / 100, 0, - 157 / 100, 0, 1 / 25]
          [0, - 157 / 100, 0, - 157 / 100, 0, 1 / 100] MAX_JOINT_MOVEMENT) \<and>
   wait_for_move_completion env_lost_after_return MOVEMENT_TIMEOUT
     [Input, Prepare, Connect, GetControllerVersion, SendOutputSetup, SendInputSetup,
      SendStart, Receive, Sleep 2, Send [0, - 157 / 100, 0, - 157 / 100, 0, 3 / 100]] =
     Some (Inr True,
       [Input, Prepare, Connect, GetControllerVersion, SendOutputSetup, SendInputSetup,
        SendStart, Receive, Sleep 2, Send [0, - 157 / 100, 0, - 157 / 100, 0, 3 / 100],
        Time, Time, Receive]) \<and>
   wait_for_move_completion env_lost_after_return MOVEMENT_TIMEOUT
     [Input, Prepare, Connect, GetControllerVersion, SendOutputSetup, SendInputSetup,
      SendStart, Receive, Sleep 2, Send [0, - 157 / 100, 0, - 157 / 100, 0, 3 / 100],
      Time, Time, Receive, Receive, Sleep 1, Send [0, - 157 / 100, 0, - 157 / 100, 0, 0]] =
     Some (Inr True,
       [Input, Prepare, Connect, GetControllerVersion, SendOutputSetup, SendInputSetup,
        SendStart, Receive, Sleep 2, Send [0, - 157 / 100, 0, - 157 / 100, 0, 3 / 100],
        Time, Time, Receive, Receive, Sleep 1, Send [0, - 157 / 100, 0, - 157 / 100, 0, 0],
        Time, Time, Receive]) \<and>
   run_safe_robot_test env_lost_after_return =
     Some (Inr (Error AttributeError),
       [Input, Prepare, Connect, GetControllerVersion, SendOutputSetup, SendInputSetup,
        SendStart, Receive, Sleep 2, Send [0, - 157 / 100, 0, - 157 / 100, 0, 3 / 100],
        Time, Time, Receive, Receive, Sleep 1, Send [0, - 157 / 100, 0, - 157 / 100, 0, 0],
        Time, Time, Receive, Receive, SendPause, Disconnect])"
  by code_simp





end
